theory Spec2Isabelle
  imports Main "HOL-Library.Word" "HOL-Library.Sublist"
begin

section \<open>The arb-node startup orchestrator (arb-node.go)\<close>

text \<open>
  The development embeds \<^verbatim>\<open>startup\<close> and \<^verbatim>\<open>printSampleUsage\<close> of
  \<^verbatim>\<open>packages/arb-rpc-node/cmd/arb-node/arb-node.go\<close>. The orchestrator is one sequential
  function whose behaviour is decided by what its collaborators return; the collaborators
  (configuration parsing, monitor, keystore, transaction database, batcher, lockout, web3
  server, the cancellation context and the channels) live in other packages, so their
  results are inputs of the model, collected in the record \<open>env\<close>. What the orchestrator
  does is recorded as a list of events in program order; a \<^verbatim>\<open>defer\<close> statement is an
  event of its own and the deferred calls are run when the function exits, last deferred
  first. A run that blocks or retries forever has no result (\<open>None\<close>).
\<close>

subsection \<open>Data\<close>

type_synonym error = string

text \<open>The fields of \<^verbatim>\<open>configuration.Config\<close> that \<^verbatim>\<open>startup\<close> reads, with the path of
  each nested field written with underscores.\<close>

record NodeConfig =
  Persistent_GlobalConfig :: string
  Persistent_Chain :: string
  L1_URL :: string
  Rollup_Address :: string
  Rollup_Machine_Filename :: string
  BridgeUtilsAddress :: string
  Node_Type :: string
  Node_ChainID :: "64 word"
  Node_Forwarder_Target :: string
  Node_Aggregator_InboxAddress :: string
  Node_Aggregator_Stateful :: bool
  Node_Sequencer_Lockout_Redis :: string
  Node_Sequencer_Lockout_SelfRPCURL :: string
  Node_Sequencer_DelayedMessagesTargetDelay :: "64 word"
  Node_Sequencer_CreateBatchBlockInterval :: "64 word"
  WaitToCatchUp :: bool
  PProfEnable :: bool
  Feed_Input_URLs :: "string list"
  Healthcheck_Metrics :: bool
  Healthcheck_Sequencer :: bool
  Healthcheck_L1Node :: bool
  Healthcheck_Addr :: string
  Healthcheck_Port :: string

text \<open>\<^verbatim>\<open>common.HexToAddress\<close> and the signing identity returned by the keystore are kept
  as uninterpreted wrappers of what they are built from.\<close>

datatype address = HexToAddress string

datatype auth = TransactOpts string

text \<open>The value that \<^verbatim>\<open>mon.StartInboxReader\<close> returns on success, a \<^verbatim>\<open>*monitor.InboxReader\<close>.
  The number tells one such value from another; what it is is the collaborator's business.\<close>

datatype InboxReader = InboxReader nat

text \<open>The four \<^verbatim>\<open>rpc.BatcherMode\<close> values built at lines 223-260; \<^verbatim>\<open>big.NewInt\<close> of an
  \<^verbatim>\<open>int64\<close> is its signed value.\<close>

datatype BatcherMode =
    ForwarderBatcherMode string
  | SequencerBatcherMode auth InboxReader int int
  | StatefulBatcherMode auth address
  | StatelessBatcherMode auth address

text \<open>A \<^verbatim>\<open>batcher.TransactionBatcher\<close> interface value, as \<^verbatim>\<open>rpc.SetupBatcher\<close> and
  \<^verbatim>\<open>rpc.SetupLockout\<close> return it: its dynamic type, of which the type assertion at line 290
  asks whether it is \<^verbatim>\<open>*batcher.SequencerBatcher\<close>, and a number that tells one value from
  another.\<close>

datatype TransactionBatcher = SequencerBatcher nat | OtherBatcher nat

datatype health_val = ValBool bool | ValStr string

datatype deferred = CancelFunc | LogCleanlyShuttingDown | MonClose | DBClose

datatype event =
    CreateLaunchContext
  | ParseNode
  | Stdout string
  | Defer deferred
  | RunDeferred deferred
  | LogInfo string
  | LogWarn string error
  | ParseLogFlags
  | GoPProfServer
  | NewMonitor
  | NewMetricsConfig
  | GoStartNodeHealthCheck
  | HealthLog string health_val
  | NodehealthInit
  | ConnectInBackground string
  | StartInboxReader
  | RecvCtxDone
  | RecvTimeAfter nat
  | GetKeystore
  | WaitForBalance
  | RegisterNodeStoreMetrics
  | TxDBNew
  | InboxWaitToCatchUp
  | SetupBatcher BatcherMode
  | SetupLockout
  | GoBatchStart TransactionBatcher
  | RegisterSystemMetrics
  | RegisterStaticMetrics
  | NewServer TransactionBatcher
  | GenerateWeb3Server
  | GoLaunchPublicServer
  | RecvTxDBErrChan "error option"
  | RecvErrChan "error option"
  | RecvCancelChan

text \<open>How \<^verbatim>\<open>startup\<close> ends: it returns an error value (\<open>None\<close> is Go's \<^verbatim>\<open>nil\<close>), or the
  type assertion of line 290 panics.\<close>

datatype outcome = Return "error option" | PanicTypeAssertion

text \<open>Which case of a retry loop's \<^verbatim>\<open>select\<close> (lines 214-218, 298-302) is taken: the
  context is done before the five seconds are over, or the timer fires.\<close>

datatype retry_select = CtxDone | TimeAfter

text \<open>What arrives at the final \<^verbatim>\<open>select\<close> (lines 320-327): an error value on
  \<^verbatim>\<open>txDBErrChan\<close>, an error value on \<^verbatim>\<open>errChan\<close>, or the operator's signal on
  \<^verbatim>\<open>cancelChan\<close>. The field \<open>arrivals\<close> of the environment lists the signals in the order
  in which the \<^verbatim>\<open>select\<close> meets them; which of several channels that are ready at the
  same moment comes first is Go's choice and so part of the environment.\<close>

datatype signal = TxDBErr "error option" | ErrChanErr "error option" | Cancel

text \<open>The environment of one run. The retry loops ask their collaborator once per
  attempt, so those answers are indexed by the number of the attempt; the answer of
  \<^verbatim>\<open>SetupBatcher\<close> may also depend on the batcher mode it is given, that of
  \<^verbatim>\<open>SetupLockout\<close> on the batcher and the inbox reader it is given.\<close>

record env =
  WalletArgsString :: string
  parseNode_err :: "error option"
  parseNode_config :: NodeConfig
  parseLogFlags :: "error option"
  newMonitor :: "error option"
  startInboxReader :: "nat \<Rightarrow> error + InboxReader"
  inboxRetrySelect :: "nat \<Rightarrow> retry_select"
  getKeystore :: "error + auth"
  waitForBalance :: "error option"
  txdbNew :: "error option"
  setupBatcher :: "nat \<Rightarrow> BatcherMode \<Rightarrow> error + TransactionBatcher"
  setupLockout :: "nat \<Rightarrow> TransactionBatcher \<Rightarrow> InboxReader \<Rightarrow> error + TransactionBatcher"
  batcherRetrySelect :: "nat \<Rightarrow> retry_select"
  generateWeb3Server :: "error option"
  arrivals :: "signal list"

subsection \<open>Helpers of the Go library\<close>

definition newline :: string where
  "newline = [CHR 0x0A]"

text \<open>\<^verbatim>\<open>fmt.Println(s)\<close>.\<close>

definition Println :: "string \<Rightarrow> event" where
  "Println s = Stdout (s @ newline)"

text \<open>\<^verbatim>\<open>strings.Contains(s, sub)\<close>.\<close>

fun strings_Contains :: "string \<Rightarrow> string \<Rightarrow> bool" where
  "strings_Contains [] sub = (sub = [])"
| "strings_Contains (c # cs) sub = (prefix sub (c # cs) \<or> strings_Contains cs sub)"

text \<open>\<^verbatim>\<open>errors.Wrap(err, msg)\<close> of pkg/errors: the message is put in front of the cause.\<close>

definition errors_Wrap :: "error \<Rightarrow> string \<Rightarrow> error" where
  "errors_Wrap err msg = msg @ '': '' @ err"

subsection \<open>printSampleUsage (lines 80-86)\<close>

definition printSampleUsage :: "string \<Rightarrow> event list" where
  "printSampleUsage walletArgs =
    [ Stdout newline,
      Stdout (''Sample usage:                  arb-node --conf=<filename> '' @ newline),
      Stdout (''          or:  forwarder node: arb-node --l1.url=<L1 RPC> [optional arguments]''
              @ newline @ newline),
      Stdout (''          or: aggregator node: arb-node --l1.url=<L1 RPC> --node.type=aggregator [optional arguments] ''
              @ walletArgs @ newline),
      Stdout (''          or:       sequencer: arb-node --l1.url=<L1 RPC> --node.type=sequencer [optional arguments] ''
              @ walletArgs @ newline) ]"

subsection \<open>Configuration checks (lines 92-147)\<close>

text \<open>The condition of the \<^verbatim>\<open>if\<close> at lines 93-96. Go's \<^verbatim>\<open>||\<close> is short-circuit, so the
  configuration is read only when no parse error came back.\<close>

definition usageGate :: "error option \<Rightarrow> NodeConfig \<Rightarrow> bool" where
  "usageGate err config \<longleftrightarrow>
     err \<noteq> None \<or> length (Persistent_GlobalConfig config) = 0 \<or> length (L1_URL config) = 0 \<or>
     length (Rollup_Address config) = 0 \<or> length (BridgeUtilsAddress config) = 0 \<or>
     (Node_Type config \<noteq> ''sequencer'' \<and> length (Node_Sequencer_Lockout_Redis config) \<noteq> 0) \<or>
     ((length (Node_Sequencer_Lockout_Redis config) = 0) \<noteq>
      (length (Node_Sequencer_Lockout_SelfRPCURL config) = 0))"

text \<open>The body of that \<^verbatim>\<open>if\<close> (lines 97-100), before its \<^verbatim>\<open>return nil\<close>.\<close>

definition usageGateOutput :: "string \<Rightarrow> error option \<Rightarrow> event list" where
  "usageGateOutput walletArgs err =
     printSampleUsage walletArgs @
     (case err of
        None \<Rightarrow> []
      | Some e \<Rightarrow> if \<not> strings_Contains e ''help requested'' then [Stdout (e @ newline)] else [])"

text \<open>Lines 105-143. The state threaded through the sequence of \<^verbatim>\<open>if\<close> statements is
  the flag \<^verbatim>\<open>badConfig\<close>, what has been printed, and the configuration (line 139 writes
  it).\<close>

type_synonym checks = "bool \<times> event list \<times> NodeConfig"

definition flagBad :: "event \<Rightarrow> checks \<Rightarrow> checks" where
  "flagBad e st = (case st of (badConfig, out, config) \<Rightarrow> (True, out @ [e], config))"

definition checkRole :: "checks \<Rightarrow> checks" where
  "checkRole st =
     (case st of (badConfig, out, config) \<Rightarrow>
        if Node_Type config = ''forwarder'' then
          (if Node_Forwarder_Target config = ''''
           then flagBad (Println ''Forwarder node needs --node.forwarder.target'') st else st)
        else if Node_Type config = ''aggregator'' then
          (if Node_Aggregator_InboxAddress config = ''''
           then flagBad (Println ''Aggregator node needs --node.aggregator.inbox-address'') st
           else st)
        else if Node_Type config = ''sequencer'' then
          (badConfig, out, config\<lparr>WaitToCatchUp := True\<rparr>)
        else flagBad (Stdout (''Unrecognized node type '' @ Node_Type config)) st)"

definition checkFields :: "NodeConfig \<Rightarrow> checks" where
  "checkFields config =
     (let s0 = (False, [], config);
          s1 = (if BridgeUtilsAddress config = ''''
                then flagBad (Println ''Missing --bridge-utils-address'') s0 else s0);
          s2 = (if Persistent_Chain config = ''''
                then flagBad (Println ''Missing --persistent.chain'') s1 else s1);
          s3 = (if Rollup_Address config = ''''
                then flagBad (Println ''Missing --rollup.address'') s2 else s2);
          s4 = (if Node_ChainID config = 0
                then flagBad (Println ''Missing --rollup.chain-id'') s3 else s3);
          s5 = (if Rollup_Machine_Filename config = ''''
                then flagBad (Println ''Missing --rollup.machine.filename'') s4 else s4)
      in checkRole s5)"

subsection \<open>Traces\<close>

text \<open>A phase of \<^verbatim>\<open>startup\<close> yields the events it performed and how it ended: \<open>Inl\<close> when
  \<^verbatim>\<open>startup\<close> is left there, \<open>Inr\<close> when control goes on to the next statement. The
  loops and the final \<^verbatim>\<open>select\<close> may never end; \<open>None\<close> stands for a run that has not
  ended.\<close>

definition prepend :: "event list \<Rightarrow> event list \<times> 'a \<Rightarrow> event list \<times> 'a" where
  "prepend evs run = (case run of (tr, r) \<Rightarrow> (evs @ tr, r))"

text \<open>The calls registered by \<^verbatim>\<open>defer\<close>, in the order of registration, and their
  execution at function exit: last registered, first run.\<close>

fun deferredCalls :: "event list \<Rightarrow> deferred list" where
  "deferredCalls [] = []"
| "deferredCalls (Defer d # es) = d # deferredCalls es"
| "deferredCalls (e # es) = deferredCalls es"

definition runDeferred :: "event list \<Rightarrow> event list" where
  "runDeferred tr = map RunDeferred (rev (deferredCalls tr))"

subsection \<open>Health events and feed subscription (lines 172-201)\<close>

definition healthEvents :: "NodeConfig \<Rightarrow> event list" where
  "healthEvents config =
     [ HealthLog ''healthcheckMetrics'' (ValBool (Healthcheck_Metrics config)),
       HealthLog ''disablePrimaryCheck'' (ValBool (\<not> Healthcheck_Sequencer config)),
       HealthLog ''disableOpenEthereumCheck'' (ValBool (\<not> Healthcheck_L1Node config)),
       HealthLog ''healthcheckRPC''
         (ValStr (Healthcheck_Addr config @ '':'' @ Healthcheck_Port config)) ] @
     (if Node_Type config = ''forwarder''
      then [HealthLog ''primaryHealthcheckRPC'' (ValStr (Node_Forwarder_Target config))]
      else []) @
     [ HealthLog ''openethereumHealthcheckRPC'' (ValStr (L1_URL config)),
       NodehealthInit ]"

definition feedEvents :: "NodeConfig \<Rightarrow> event list" where
  "feedEvents config =
     (if length (Feed_Input_URLs config) = 0
      then [LogWarn ''Missing --feed.url so not subscribing to feed'' []]
      else map ConnectInBackground (Feed_Input_URLs config))"

subsection \<open>The inbox-reader retry loop (lines 202-219)\<close>

text \<open>The first argument bounds the number of iterations that are followed; the third is
  the number of the attempt, which selects what the collaborator answers. The loop is left
  by \<^verbatim>\<open>break\<close> with \<^verbatim>\<open>inboxReader\<close> holding what the last call returned.\<close>

fun inboxReaderLoop :: "nat \<Rightarrow> env \<Rightarrow> nat \<Rightarrow> event list \<times> (outcome + InboxReader) option" where
  "inboxReaderLoop 0 env i = ([], None)"
| "inboxReaderLoop (Suc fuel) env i =
     (case startInboxReader env i of
        Inr inboxReader \<Rightarrow> ([StartInboxReader], Some (Inr inboxReader))
      | Inl err \<Rightarrow>
          (case inboxRetrySelect env i of
             CtxDone \<Rightarrow>
               ([StartInboxReader,
                 LogWarn ''failed to start inbox reader, waiting and retrying'' err,
                 RecvCtxDone],
                Some (Inl (Return (Some ''ctx cancelled StartInboxReader retry loop''))))
           | TimeAfter \<Rightarrow>
               prepend [StartInboxReader,
                        LogWarn ''failed to start inbox reader, waiting and retrying'' err,
                        RecvTimeAfter 5]
                 (inboxReaderLoop fuel env (Suc i))))"

subsection \<open>Choosing the batcher mode (lines 221-260)\<close>

definition resolveMode ::
  "env \<Rightarrow> NodeConfig \<Rightarrow> InboxReader \<Rightarrow> event list \<times> (outcome + BatcherMode)" where
  "resolveMode env config inboxReader =
     (if Node_Type config = ''forwarder'' then
        ([LogInfo ''Arbitrum node starting in forwarder mode''],
         Inr (ForwarderBatcherMode (Node_Forwarder_Target config)))
      else
        (case getKeystore env of
           Inl err \<Rightarrow>
             ([GetKeystore], Inl (Return (Some (errors_Wrap err ''error running GetKeystore''))))
         | Inr auth \<Rightarrow>
             (case waitForBalance env of
                Some err \<Rightarrow>
                  ([GetKeystore, LogInfo ''Arbitrum node submitting batches'', WaitForBalance],
                   Inl (Return (Some (errors_Wrap err ''error waiting for balance''))))
              | None \<Rightarrow>
                  ([GetKeystore, LogInfo ''Arbitrum node submitting batches'', WaitForBalance],
                   Inr (if Node_Type config = ''sequencer'' then
                          SequencerBatcherMode auth inboxReader
                            (sint (Node_Sequencer_DelayedMessagesTargetDelay config))
                            (sint (Node_Sequencer_CreateBatchBlockInterval config))
                        else
                          (let inboxAddress = HexToAddress (Node_Aggregator_InboxAddress config)
                           in if Node_Aggregator_Stateful config
                              then StatefulBatcherMode auth inboxAddress
                              else StatelessBatcherMode auth inboxAddress))))))"

subsection \<open>The batcher retry loop (lines 274-303)\<close>

text \<open>One pass through lines 277-291: the events, and either what \<^verbatim>\<open>batch, err\<close> hold
  after line 291 (\<open>Inl err\<close> for an error, \<open>Inr batch\<close> for \<^verbatim>\<open>err == nil\<close>) or the panic
  of the type assertion \<^verbatim>\<open>batch.(*batcher.SequencerBatcher)\<close>.\<close>

definition batcherAttempt ::
  "env \<Rightarrow> NodeConfig \<Rightarrow> BatcherMode \<Rightarrow> InboxReader \<Rightarrow> nat \<Rightarrow>
   event list \<times> (outcome + (error + TransactionBatcher))" where
  "batcherAttempt env config batcherMode inboxReader i =
     (case setupBatcher env i batcherMode of
        Inl err \<Rightarrow> ([SetupBatcher batcherMode], Inr (Inl err))
      | Inr batch \<Rightarrow>
          if Node_Sequencer_Lockout_Redis config \<noteq> [] then
            (case batch of
               SequencerBatcher h \<Rightarrow>
                 ([SetupBatcher batcherMode, SetupLockout],
                  Inr (setupLockout env i batch inboxReader))
             | OtherBatcher h \<Rightarrow> ([SetupBatcher batcherMode], Inl PanicTypeAssertion))
          else ([SetupBatcher batcherMode], Inr (Inr batch)))"

fun batcherLoop ::
  "nat \<Rightarrow> env \<Rightarrow> NodeConfig \<Rightarrow> BatcherMode \<Rightarrow> InboxReader \<Rightarrow> nat \<Rightarrow>
   event list \<times> (outcome + TransactionBatcher) option" where
  "batcherLoop 0 env config batcherMode inboxReader i = ([], None)"
| "batcherLoop (Suc fuel) env config batcherMode inboxReader i =
     (case batcherAttempt env config batcherMode inboxReader i of
        (evs, Inl panic) \<Rightarrow> (evs, Some (Inl panic))
      | (evs, Inr (Inr batch)) \<Rightarrow> (evs @ [GoBatchStart batch], Some (Inr batch))
      | (evs, Inr (Inl err)) \<Rightarrow>
          (case batcherRetrySelect env i of
             CtxDone \<Rightarrow>
               (evs @ [LogWarn ''failed to setup batcher, waiting and retrying'' err, RecvCtxDone],
                Some (Inl (Return (Some ''ctx cancelled setup batcher''))))
           | TimeAfter \<Rightarrow>
               prepend (evs @ [LogWarn ''failed to setup batcher, waiting and retrying'' err,
                               RecvTimeAfter 5])
                 (batcherLoop fuel env config batcherMode inboxReader (Suc i))))"

subsection \<open>Serving and the final select (lines 305-327)\<close>

text \<open>The \<^verbatim>\<open>select\<close> takes the first signal to arrive; with no signal it blocks.\<close>

fun finalSelect :: "signal list \<Rightarrow> event list \<times> outcome option" where
  "finalSelect [] = ([], None)"
| "finalSelect (TxDBErr err # later) = ([RecvTxDBErrChan err], Some (Return err))"
| "finalSelect (ErrChanErr err # later) = ([RecvErrChan err], Some (Return err))"
| "finalSelect (Cancel # later) = ([RecvCancelChan], Some (Return None))"

definition serve :: "env \<Rightarrow> TransactionBatcher \<Rightarrow> event list \<times> outcome option" where
  "serve env batch =
     (case generateWeb3Server env of
        Some err \<Rightarrow>
          ([RegisterSystemMetrics, RegisterStaticMetrics, NewServer batch, GenerateWeb3Server],
           Some (Return (Some err)))
      | None \<Rightarrow>
          prepend [RegisterSystemMetrics, RegisterStaticMetrics, NewServer batch,
                   GenerateWeb3Server, GoLaunchPublicServer]
            (finalSelect (arrivals env)))"

subsection \<open>startup (lines 88-328)\<close>

text \<open>Lines 274-327: the batcher loop, then serving.\<close>

definition runBatcher ::
  "nat \<Rightarrow> env \<Rightarrow> NodeConfig \<Rightarrow> BatcherMode \<Rightarrow> InboxReader \<Rightarrow> event list \<times> outcome option" where
  "runBatcher fuel env config batcherMode inboxReader =
     (case batcherLoop fuel env config batcherMode inboxReader 0 of
        (tr, None) \<Rightarrow> (tr, None)
      | (tr, Some (Inl out)) \<Rightarrow> (tr, Some out)
      | (tr, Some (Inr batch)) \<Rightarrow> prepend tr (serve env batch))"

text \<open>Lines 202-272: the inbox reader, the batcher mode, the transaction database and the
  catch-up wait.\<close>

definition acquire :: "nat \<Rightarrow> env \<Rightarrow> NodeConfig \<Rightarrow> event list \<times> outcome option" where
  "acquire fuel env config =
     (case inboxReaderLoop fuel env 0 of
        (tr, None) \<Rightarrow> (tr, None)
      | (tr, Some (Inl out)) \<Rightarrow> (tr, Some out)
      | (tr, Some (Inr inboxReader)) \<Rightarrow>
          prepend tr
            (case resolveMode env config inboxReader of
               (evs, Inl out) \<Rightarrow> (evs, Some out)
             | (evs, Inr batcherMode) \<Rightarrow>
                 (case txdbNew env of
                    Some err \<Rightarrow>
                      (evs @ [RegisterNodeStoreMetrics, TxDBNew],
                       Some (Return (Some (errors_Wrap err ''error opening txdb''))))
                  | None \<Rightarrow>
                      prepend
                        (evs @ [RegisterNodeStoreMetrics, TxDBNew, Defer DBClose] @
                         (if WaitToCatchUp config then [InboxWaitToCatchUp] else []))
                        (runBatcher fuel env config batcherMode inboxReader))))"

text \<open>Lines 151-201: log flags, profiling server, monitor, health check, feed.\<close>

definition launch :: "nat \<Rightarrow> env \<Rightarrow> NodeConfig \<Rightarrow> event list \<times> outcome option" where
  "launch fuel env config =
     (case parseLogFlags env of
        Some err \<Rightarrow> ([ParseLogFlags], Some (Return (Some err)))
      | None \<Rightarrow>
          prepend
            ([ParseLogFlags] @ (if PProfEnable config then [GoPProfServer] else []) @
             [LogInfo ''Launching arbitrum node'', NewMonitor])
            (case newMonitor env of
               Some err \<Rightarrow> ([], Some (Return (Some (errors_Wrap err ''error opening monitor''))))
             | None \<Rightarrow>
                 prepend
                   ([Defer MonClose, NewMetricsConfig, GoStartNodeHealthCheck] @
                    healthEvents config @ feedEvents config)
                   (acquire fuel env config)))"

text \<open>The body of \<^verbatim>\<open>startup\<close> up to the point where it is left.\<close>

definition startupBody :: "nat \<Rightarrow> env \<Rightarrow> event list \<times> outcome option" where
  "startupBody fuel env =
     prepend [CreateLaunchContext, Defer CancelFunc, ParseNode]
       (if usageGate (parseNode_err env) (parseNode_config env) then
          (usageGateOutput (WalletArgsString env) (parseNode_err env), Some (Return None))
        else
          (case checkFields (parseNode_config env) of
             (badConfig, out, config) \<Rightarrow>
               if badConfig then (out, Some (Return None))
               else prepend (out @ [Defer LogCleanlyShuttingDown]) (launch fuel env config)))"

text \<open>\<^verbatim>\<open>startup\<close>: when the body is left, by \<^verbatim>\<open>return\<close> or by the panic, the deferred
  calls run. \<open>startup fuel env = (tr, None)\<close> is a run that is still inside a retry
  loop after \<open>fuel\<close> iterations, or blocked in the final \<^verbatim>\<open>select\<close>, having done \<open>tr\<close>.\<close>

definition startup :: "nat \<Rightarrow> env \<Rightarrow> event list \<times> outcome option" where
  "startup fuel env =
     (case startupBody fuel env of
        (tr, None) \<Rightarrow> (tr, None)
      | (tr, Some out) \<Rightarrow> (tr @ runDeferred tr, Some out))"

subsection \<open>Predicates on traces\<close>

text \<open>An event that only writes to standard output.\<close>

fun isStdout :: "event \<Rightarrow> bool" where
  "isStdout (Stdout s) = True"
| "isStdout e = False"

text \<open>What lines 127-143 print for a configuration.\<close>

definition roleOutput :: "NodeConfig \<Rightarrow> event list" where
  "roleOutput c =
     (if Node_Type c = ''forwarder'' then
        (if Node_Forwarder_Target c = []
         then [Println ''Forwarder node needs --node.forwarder.target''] else [])
      else if Node_Type c = ''aggregator'' then
        (if Node_Aggregator_InboxAddress c = []
         then [Println ''Aggregator node needs --node.aggregator.inbox-address''] else [])
      else if Node_Type c = ''sequencer'' then []
      else [Stdout (''Unrecognized node type '' @ Node_Type c)])"

text \<open>The events that can occur before the transaction database is open, and the events
  that can occur from the batcher loop on.\<close>

fun isEarlyEvent :: "event \<Rightarrow> bool" where
  "isEarlyEvent (Defer d) = (d \<noteq> DBClose)"
| "isEarlyEvent (RunDeferred d) = False"
| "isEarlyEvent InboxWaitToCatchUp = False"
| "isEarlyEvent (SetupBatcher m) = False"
| "isEarlyEvent SetupLockout = False"
| "isEarlyEvent (GoBatchStart b) = False"
| "isEarlyEvent RegisterSystemMetrics = False"
| "isEarlyEvent RegisterStaticMetrics = False"
| "isEarlyEvent (NewServer b) = False"
| "isEarlyEvent GenerateWeb3Server = False"
| "isEarlyEvent GoLaunchPublicServer = False"
| "isEarlyEvent (RecvTxDBErrChan e) = False"
| "isEarlyEvent (RecvErrChan e) = False"
| "isEarlyEvent RecvCancelChan = False"
| "isEarlyEvent e = True"

fun isLateEvent :: "event \<Rightarrow> bool" where
  "isLateEvent (SetupBatcher m) = True"
| "isLateEvent SetupLockout = True"
| "isLateEvent (GoBatchStart b) = True"
| "isLateEvent RecvCtxDone = True"
| "isLateEvent (RecvTimeAfter d) = True"
| "isLateEvent (LogWarn w err) = True"
| "isLateEvent RegisterSystemMetrics = True"
| "isLateEvent RegisterStaticMetrics = True"
| "isLateEvent (NewServer b) = True"
| "isLateEvent GenerateWeb3Server = True"
| "isLateEvent GoLaunchPublicServer = True"
| "isLateEvent (RecvTxDBErrChan e) = True"
| "isLateEvent (RecvErrChan e) = True"
| "isLateEvent RecvCancelChan = True"
| "isLateEvent e = False"

text \<open>The configuration after line 143, the inbox reader that the first retry loop
  leaves in \<^verbatim>\<open>inboxReader\<close>, the batcher mode chosen at lines 223-260, the condition under
  which a run gets past line 268, and what such a run has done by line 272.\<close>

definition configOf :: "env \<Rightarrow> NodeConfig" where
  "configOf env = snd (snd (checkFields (parseNode_config env)))"

definition readerOf :: "nat \<Rightarrow> env \<Rightarrow> InboxReader" where
  "readerOf fuel env = projr (the (snd (inboxReaderLoop fuel env 0)))"

definition modeOf :: "nat \<Rightarrow> env \<Rightarrow> BatcherMode" where
  "modeOf fuel env = projr (snd (resolveMode env (configOf env) (readerOf fuel env)))"

definition opensDB :: "nat \<Rightarrow> env \<Rightarrow> bool" where
  "opensDB fuel env \<longleftrightarrow>
     \<not> usageGate (parseNode_err env) (parseNode_config env) \<and>
     \<not> fst (checkFields (parseNode_config env)) \<and>
     parseLogFlags env = None \<and> newMonitor env = None \<and>
     snd (inboxReaderLoop fuel env 0) = Some (Inr (readerOf fuel env)) \<and>
     \<not> isl (snd (resolveMode env (configOf env) (readerOf fuel env))) \<and>
     txdbNew env = None"

definition setupTrace :: "nat \<Rightarrow> env \<Rightarrow> event list" where
  "setupTrace fuel env =
     [CreateLaunchContext, Defer CancelFunc, ParseNode, Defer LogCleanlyShuttingDown,
      ParseLogFlags] @
     (if PProfEnable (configOf env) then [GoPProfServer] else []) @
     [LogInfo ''Launching arbitrum node'', NewMonitor, Defer MonClose, NewMetricsConfig,
      GoStartNodeHealthCheck] @
     healthEvents (configOf env) @ feedEvents (configOf env) @
     fst (inboxReaderLoop fuel env 0) @
     fst (resolveMode env (configOf env) (readerOf fuel env)) @
     [RegisterNodeStoreMetrics, TxDBNew, Defer DBClose] @
     (if WaitToCatchUp (configOf env) then [InboxWaitToCatchUp] else [])"

subsection \<open>Sample inputs\<close>

text \<open>A complete sequencer configuration with lockout, and an environment in which every
  collaborator succeeds at once and the operator's cancellation is the first signal.\<close>

definition sequencerConfig :: NodeConfig where
  "sequencerConfig =
     \<lparr> Persistent_GlobalConfig = ''/data/arbitrum'',
       Persistent_Chain = ''/data/arbitrum/rinkeby'',
       L1_URL = ''http://l1:8545'',
       Rollup_Address = ''0xFe2c86CF40F89Fe2F726cFBBACEBae631300b50c'',
       Rollup_Machine_Filename = ''arbos.mexe'',
       BridgeUtilsAddress = ''0xA556F0eF1A0E37a7837ceec5527aFC7771Bf9a67'',
       Node_Type = ''sequencer'',
       Node_ChainID = 421611,
       Node_Forwarder_Target = [],
       Node_Aggregator_InboxAddress = [],
       Node_Aggregator_Stateful = False,
       Node_Sequencer_Lockout_Redis = ''r:6379'',
       Node_Sequencer_Lockout_SelfRPCURL = ''http://self:8547'',
       Node_Sequencer_DelayedMessagesTargetDelay = 12,
       Node_Sequencer_CreateBatchBlockInterval = 270,
       WaitToCatchUp = False,
       PProfEnable = False,
       Feed_Input_URLs = [],
       Healthcheck_Metrics = False,
       Healthcheck_Sequencer = False,
       Healthcheck_L1Node = False,
       Healthcheck_Addr = ''0.0.0.0'',
       Healthcheck_Port = ''8080'' \<rparr>"

definition aggregatorConfig :: NodeConfig where
  "aggregatorConfig =
     sequencerConfig
       \<lparr> Node_Type := ''aggregator'',
         Node_Aggregator_InboxAddress := ''0x578BAde599406A8fE3d24Fd7f7211c0911F5B29e'',
         Node_Sequencer_Lockout_Redis := [],
         Node_Sequencer_Lockout_SelfRPCURL := [] \<rparr>"

definition batcherFor :: "nat \<Rightarrow> BatcherMode \<Rightarrow> TransactionBatcher" where
  "batcherFor i batcherMode =
     (case batcherMode of
        SequencerBatcherMode a r d c \<Rightarrow> SequencerBatcher i
      | _ \<Rightarrow> OtherBatcher i)"

definition calmEnv :: "NodeConfig \<Rightarrow> env" where
  "calmEnv config =
     \<lparr> WalletArgsString = ''[--wallet.password=pass]'',
       parseNode_err = None,
       parseNode_config = config,
       parseLogFlags = None,
       newMonitor = None,
       startInboxReader = (\<lambda>i. Inr (InboxReader i)),
       inboxRetrySelect = (\<lambda>i. TimeAfter),
       getKeystore = Inr (TransactOpts ''0x01''),
       waitForBalance = None,
       txdbNew = None,
       setupBatcher = (\<lambda>i batcherMode. Inr (batcherFor i batcherMode)),
       setupLockout = (\<lambda>i batch inboxReader. Inr (OtherBatcher (100 + i))),
       batcherRetrySelect = (\<lambda>i. TimeAfter),
       generateWeb3Server = None,
       arrivals = [Cancel] \<rparr>"

text \<open>An environment in which the inbox reader fails twice, the batcher construction
  fails once and the lockout wrap fails on the attempt after that; one in which both
  retry loops are cancelled; one in which the inbox reader is there at once and the
  batcher loop is cancelled; and the batcher mode that the sample sequencer builds from
  the inbox reader of the third attempt.\<close>

definition flakyEnv :: env where
  "flakyEnv =
     (calmEnv sequencerConfig)
       \<lparr> startInboxReader := (\<lambda>i. if i < 2 then Inl ''dial tcp: connection refused''
                                   else Inr (InboxReader i)),
         setupBatcher := (\<lambda>i batcherMode. if i < 1 then Inl ''no L1 connection''
                                            else Inr (batcherFor i batcherMode)),
         setupLockout := (\<lambda>i batch inboxReader. if i < 2 then Inl ''redis unreachable''
                                                  else Inr (OtherBatcher (100 + i))) \<rparr>"

definition cancelledEnv :: env where
  "cancelledEnv =
     (calmEnv sequencerConfig)
       \<lparr> startInboxReader := (\<lambda>i. Inl ''dial tcp: connection refused''),
         inboxRetrySelect := (\<lambda>i. CtxDone),
         setupBatcher := (\<lambda>i batcherMode. Inl ''no L1 connection''),
         batcherRetrySelect := (\<lambda>i. if i < 1 then TimeAfter else CtxDone) \<rparr>"

definition cancelledBatcherEnv :: env where
  "cancelledBatcherEnv =
     (calmEnv sequencerConfig)
       \<lparr> setupBatcher := (\<lambda>i batcherMode. Inl ''no L1 connection''),
         batcherRetrySelect := (\<lambda>i. if i < 1 then TimeAfter else CtxDone) \<rparr>"

definition sequencerMode :: BatcherMode where
  "sequencerMode = SequencerBatcherMode (TransactOpts ''0x01'') (InboxReader 2) 12 270"

section \<open>Configuration checks\<close>

lemma flagBad_if:
  "fst (if b then flagBad e st else st) = (b \<or> fst st)"
  "fst (snd (if b then flagBad e st else st)) = fst (snd st) @ (if b then [e] else [])"
  "snd (snd (if b then flagBad e st else st)) = snd (snd st)"
  by (cases st; simp add: flagBad_def)+

lemma checkRole_parts:
  "fst (checkRole st) =
     (fst st \<or> (Node_Type (snd (snd st)) = ''forwarder'' \<and> Node_Forwarder_Target (snd (snd st)) = []) \<or>
     (Node_Type (snd (snd st)) = ''aggregator'' \<and> Node_Aggregator_InboxAddress (snd (snd st)) = []) \<or>
     (Node_Type (snd (snd st)) \<noteq> ''forwarder'' \<and> Node_Type (snd (snd st)) \<noteq> ''aggregator'' \<and>
      Node_Type (snd (snd st)) \<noteq> ''sequencer''))"
  "fst (snd (checkRole st)) = fst (snd st) @ roleOutput (snd (snd st))"
  "snd (snd (checkRole st)) =
     (if Node_Type (snd (snd st)) = ''sequencer'' then (snd (snd st))\<lparr>WaitToCatchUp := True\<rparr>
      else snd (snd st))"
  by (cases st; simp add: checkRole_def flagBad_def roleOutput_def)+

lemma checkFields_bad:
  "fst (checkFields c) \<longleftrightarrow>
     BridgeUtilsAddress c = [] \<or> Persistent_Chain c = [] \<or> Rollup_Address c = [] \<or>
     Node_ChainID c = 0 \<or> Rollup_Machine_Filename c = [] \<or>
     (Node_Type c = ''forwarder'' \<and> Node_Forwarder_Target c = []) \<or>
     (Node_Type c = ''aggregator'' \<and> Node_Aggregator_InboxAddress c = []) \<or>
     (Node_Type c \<noteq> ''forwarder'' \<and> Node_Type c \<noteq> ''aggregator'' \<and> Node_Type c \<noteq> ''sequencer'')"
  unfolding checkFields_def Let_def
  by (simp only: flagBad_if checkRole_parts fst_conv snd_conv) blast

lemma checkFields_out:
  "fst (snd (checkFields c)) =
     (if BridgeUtilsAddress c = [] then [Println ''Missing --bridge-utils-address''] else []) @
     (if Persistent_Chain c = [] then [Println ''Missing --persistent.chain''] else []) @
     (if Rollup_Address c = [] then [Println ''Missing --rollup.address''] else []) @
     (if Node_ChainID c = 0 then [Println ''Missing --rollup.chain-id''] else []) @
     (if Rollup_Machine_Filename c = [] then [Println ''Missing --rollup.machine.filename''] else []) @
     roleOutput c"
  unfolding checkFields_def Let_def
  by (simp only: flagBad_if checkRole_parts fst_conv snd_conv append_Nil append_assoc)

lemma checkFields_config:
  "snd (snd (checkFields c)) = (if Node_Type c = ''sequencer'' then c\<lparr>WaitToCatchUp := True\<rparr> else c)"
  unfolding checkFields_def Let_def
  by (simp only: flagBad_if checkRole_parts fst_conv snd_conv)

lemma deferredCalls_append: "deferredCalls (xs @ ys) = deferredCalls xs @ deferredCalls ys"
  by (induction xs rule: deferredCalls.induct) simp_all

lemma isStdout_Println [simp]: "isStdout (Println m)"
  by (simp add: Println_def)

lemma deferredCalls_Stdout: "list_all isStdout out \<Longrightarrow> deferredCalls out = []"
  by (induction out rule: deferredCalls.induct) simp_all

lemma roleOutput_Stdout: "list_all isStdout (roleOutput c)"
  by (simp add: roleOutput_def)

lemma checkFields_Stdout: "list_all isStdout (fst (snd (checkFields c)))"
  by (simp add: checkFields_out roleOutput_Stdout)

lemma printSampleUsage_Stdout: "list_all isStdout (printSampleUsage w)"
  by (simp add: printSampleUsage_def)

lemma usageGateOutput_Stdout: "list_all isStdout (usageGateOutput w err)"
  by (simp add: usageGateOutput_def printSampleUsage_Stdout split: option.splits)

lemma usageGateOutput_prefix: "prefix (printSampleUsage w) (usageGateOutput w err)"
  by (simp add: usageGateOutput_def)

lemma startup_usageGate:
  assumes "usageGate (parseNode_err env) (parseNode_config env)"
  shows "startup fuel env =
     ([CreateLaunchContext, Defer CancelFunc, ParseNode] @
      usageGateOutput (WalletArgsString env) (parseNode_err env) @ [RunDeferred CancelFunc],
      Some (Return None))"
  using assms deferredCalls_Stdout [OF usageGateOutput_Stdout]
  by (simp add: startup_def startupBody_def prepend_def runDeferred_def deferredCalls_append)

lemma startup_badConfig:
  assumes "\<not> usageGate (parseNode_err env) (parseNode_config env)"
    and "fst (checkFields (parseNode_config env))"
  shows "startup fuel env =
     ([CreateLaunchContext, Defer CancelFunc, ParseNode] @
      fst (snd (checkFields (parseNode_config env))) @ [RunDeferred CancelFunc],
      Some (Return None))"
proof -
  obtain b out c' where cf: "checkFields (parseNode_config env) = (b, out, c')"
    by (cases "checkFields (parseNode_config env)") auto
  from assms(2) cf have b by simp
  from checkFields_Stdout [of "parseNode_config env"] cf have "deferredCalls out = []"
    by (simp add: deferredCalls_Stdout)
  with assms(1) cf \<open>b\<close> show ?thesis
    by (simp add: startup_def startupBody_def prepend_def runDeferred_def deferredCalls_append)
qed

text \<open>
  Claim C7. Lockout validation rules: a configuration whose node type is not
  \<^verbatim>\<open>sequencer\<close> and whose lockout redis address is set fails validation, and so does, for
  every node type, a configuration with exactly one of the lockout redis address and the
  lockout self-RPC URL set. Failing means: the condition of lines 93-96 holds, and
  \<^verbatim>\<open>startup\<close> prints the usage text (and the parse error, if any), does nothing else
  and returns \<^verbatim>\<open>nil\<close>.
\<close>

theorem lockout_rules_fail_validation:
  assumes "(Node_Type (parseNode_config env) \<noteq> ''sequencer'' \<and>
            Node_Sequencer_Lockout_Redis (parseNode_config env) \<noteq> []) \<or>
           ((Node_Sequencer_Lockout_Redis (parseNode_config env) = []) \<noteq>
            (Node_Sequencer_Lockout_SelfRPCURL (parseNode_config env) = []))"
  shows "usageGate (parseNode_err env) (parseNode_config env) \<and>
         startup fuel env =
           ([CreateLaunchContext, Defer CancelFunc, ParseNode] @
            usageGateOutput (WalletArgsString env) (parseNode_err env) @
            [RunDeferred CancelFunc],
            Some (Return None))"
proof -
  from assms have "usageGate (parseNode_err env) (parseNode_config env)"
    unfolding usageGate_def by auto
  then show ?thesis
    by (simp add: startup_usageGate)
qed

text \<open>Scenario B of the specification: a sequencer with a redis address and no self-RPC
  URL.\<close>

theorem lockout_rules_fail_validation_witness:
  "Node_Sequencer_Lockout_Redis (sequencerConfig\<lparr>Node_Sequencer_Lockout_SelfRPCURL := []\<rparr>) = ''r:6379'' \<and>
   startup 1 (calmEnv (sequencerConfig\<lparr>Node_Sequencer_Lockout_SelfRPCURL := []\<rparr>)) =
     ([CreateLaunchContext, Defer CancelFunc, ParseNode] @
      printSampleUsage ''[--wallet.password=pass]'' @ [RunDeferred CancelFunc],
      Some (Return None))"
proof -
  let ?env = "calmEnv (sequencerConfig\<lparr>Node_Sequencer_Lockout_SelfRPCURL := []\<rparr>)"
  have h: "(Node_Type (parseNode_config ?env) \<noteq> ''sequencer'' \<and>
            Node_Sequencer_Lockout_Redis (parseNode_config ?env) \<noteq> []) \<or>
           ((Node_Sequencer_Lockout_Redis (parseNode_config ?env) = []) \<noteq>
            (Node_Sequencer_Lockout_SelfRPCURL (parseNode_config ?env) = []))"
    by (simp add: calmEnv_def sequencerConfig_def)
  from lockout_rules_fail_validation [OF h, of 1] show ?thesis
    by (simp add: calmEnv_def sequencerConfig_def usageGateOutput_def)
qed

text \<open>
  Claim C1, as amended. The checks come in two stages. A configuration that the condition
  of lines 93-96 lets through and that violates one of the rules of lines 105-143
  (persistent chain path, chain id, machine file, forwarder target, aggregator inbox
  address, known node type) has every violated rule of that second stage printed, in
  source order and not only the first, and \<^verbatim>\<open>startup\<close> returns \<^verbatim>\<open>nil\<close> having done
  nothing else. (A violation caught at lines 93-96 is answered by the usage text alone;
  see the counterexample.)
\<close>

theorem second_stage_reports_every_violation:
  assumes "\<not> usageGate (parseNode_err env) config"
    and "config = parseNode_config env"
    and "Persistent_Chain config = [] \<or> Node_ChainID config = 0 \<or>
         Rollup_Machine_Filename config = [] \<or>
         (Node_Type config = ''forwarder'' \<and> Node_Forwarder_Target config = []) \<or>
         (Node_Type config = ''aggregator'' \<and> Node_Aggregator_InboxAddress config = []) \<or>
         (Node_Type config \<noteq> ''forwarder'' \<and> Node_Type config \<noteq> ''aggregator'' \<and>
          Node_Type config \<noteq> ''sequencer'')"
  shows "startup fuel env =
     ([CreateLaunchContext, Defer CancelFunc, ParseNode] @
      (if Persistent_Chain config = [] then [Println ''Missing --persistent.chain''] else []) @
      (if Node_ChainID config = 0 then [Println ''Missing --rollup.chain-id''] else []) @
      (if Rollup_Machine_Filename config = []
       then [Println ''Missing --rollup.machine.filename''] else []) @
      (if Node_Type config = ''forwarder'' then
         (if Node_Forwarder_Target config = []
          then [Println ''Forwarder node needs --node.forwarder.target''] else [])
       else if Node_Type config = ''aggregator'' then
         (if Node_Aggregator_InboxAddress config = []
          then [Println ''Aggregator node needs --node.aggregator.inbox-address''] else [])
       else if Node_Type config = ''sequencer'' then []
       else [Stdout (''Unrecognized node type '' @ Node_Type config)]) @
      [RunDeferred CancelFunc],
      Some (Return None))"
proof -
  from assms(1) have ne: "BridgeUtilsAddress config \<noteq> []" "Rollup_Address config \<noteq> []"
    unfolding usageGate_def by auto
  from assms(3) have bad: "fst (checkFields config)"
    unfolding checkFields_bad by blast
  have out: "fst (snd (checkFields config)) =
      (if Persistent_Chain config = [] then [Println ''Missing --persistent.chain''] else []) @
      (if Node_ChainID config = 0 then [Println ''Missing --rollup.chain-id''] else []) @
      (if Rollup_Machine_Filename config = []
       then [Println ''Missing --rollup.machine.filename''] else []) @
      roleOutput config"
    using ne by (simp only: checkFields_out if_False append_Nil)
  from startup_badConfig [of env fuel] assms(1,2) bad
  have "startup fuel env =
     ([CreateLaunchContext, Defer CancelFunc, ParseNode] @
      fst (snd (checkFields config)) @ [RunDeferred CancelFunc],
      Some (Return None))"
    by simp
  then show ?thesis
    by (simp only: out roleOutput_def append_assoc)
qed

text \<open>A sequencer configuration without chain id and without machine file: both are
  reported.\<close>

theorem second_stage_reports_every_violation_witness:
  "startup 1 (calmEnv (sequencerConfig\<lparr>Node_ChainID := 0, Rollup_Machine_Filename := []\<rparr>)) =
     ([CreateLaunchContext, Defer CancelFunc, ParseNode,
       Println ''Missing --rollup.chain-id'', Println ''Missing --rollup.machine.filename'',
       RunDeferred CancelFunc],
      Some (Return None))"
proof -
  let ?config = "sequencerConfig\<lparr>Node_ChainID := 0, Rollup_Machine_Filename := []\<rparr>"
  have h1: "\<not> usageGate (parseNode_err (calmEnv ?config)) ?config"
    by (simp add: usageGate_def calmEnv_def sequencerConfig_def)
  have h2: "?config = parseNode_config (calmEnv ?config)"
    by (simp add: calmEnv_def)
  have h3: "Persistent_Chain ?config = [] \<or> Node_ChainID ?config = 0 \<or>
         Rollup_Machine_Filename ?config = [] \<or>
         (Node_Type ?config = ''forwarder'' \<and> Node_Forwarder_Target ?config = []) \<or>
         (Node_Type ?config = ''aggregator'' \<and> Node_Aggregator_InboxAddress ?config = []) \<or>
         (Node_Type ?config \<noteq> ''forwarder'' \<and> Node_Type ?config \<noteq> ''aggregator'' \<and>
          Node_Type ?config \<noteq> ''sequencer'')"
    by simp
  from second_stage_reports_every_violation [OF h1 h2 h3, of 1] show ?thesis
    by (simp add: sequencerConfig_def)
qed

text \<open>
  Claim C1 as stated fails: a configuration with no L1 URL and no chain id violates two
  rules, and the run prints the usage text and nothing about the chain id.
\<close>

theorem validation_non_fail_fast_counterexample:
  "L1_URL (sequencerConfig\<lparr>L1_URL := [], Node_ChainID := 0\<rparr>) = [] \<and>
   Node_ChainID (sequencerConfig\<lparr>L1_URL := [], Node_ChainID := 0\<rparr>) = 0 \<and>
   startup 1 (calmEnv (sequencerConfig\<lparr>L1_URL := [], Node_ChainID := 0\<rparr>)) =
     ([CreateLaunchContext, Defer CancelFunc, ParseNode] @
      printSampleUsage ''[--wallet.password=pass]'' @ [RunDeferred CancelFunc],
      Some (Return None)) \<and>
   Println ''Missing --rollup.chain-id'' \<notin>
     set (fst (startup 1 (calmEnv (sequencerConfig\<lparr>L1_URL := [], Node_ChainID := 0\<rparr>))))"
  by code_simp

lemma roleOutput_empty:
  "roleOutput c = [] \<longleftrightarrow>
     \<not> ((Node_Type c = ''forwarder'' \<and> Node_Forwarder_Target c = []) \<or>
        (Node_Type c = ''aggregator'' \<and> Node_Aggregator_InboxAddress c = []) \<or>
        (Node_Type c \<noteq> ''forwarder'' \<and> Node_Type c \<noteq> ''aggregator'' \<and>
         Node_Type c \<noteq> ''sequencer''))"
  by (simp add: roleOutput_def)

lemma if_single_empty: "(if b then [e] else []) = [] \<longleftrightarrow> \<not> b"
  by simp

lemma checkFields_nonempty: "fst (checkFields c) \<Longrightarrow> fst (snd (checkFields c)) \<noteq> []"
  unfolding checkFields_bad checkFields_out
  by (simp only: append_is_Nil_conv if_single_empty roleOutput_empty) blast

text \<open>
  Claim C6, as amended. For every configuration that violates a validation rule (the
  condition of lines 93-96 holds, or \<^verbatim>\<open>badConfig\<close> is set at line 145), \<^verbatim>\<open>startup\<close>
  does nothing but print to standard output, so no subsystem is started, and returns
  \<^verbatim>\<open>nil\<close>. When the violation is caught at lines 93-96, what is printed is the output of
  lines 97-100, which begins with the usage text. When it is caught at lines 105-143, what
  is printed is the messages of the violated rules of those lines, in source order: there
  is at least one, and none of them is a line of the usage text.
\<close>

theorem invalid_config_starts_nothing:
  assumes "usageGate (parseNode_err env) config \<or> fst (checkFields config)"
    and "config = parseNode_config env"
  shows "startup fuel env =
       ([CreateLaunchContext, Defer CancelFunc, ParseNode] @
        (if usageGate (parseNode_err env) config
         then usageGateOutput (WalletArgsString env) (parseNode_err env)
         else fst (snd (checkFields config))) @
        [RunDeferred CancelFunc],
        Some (Return None)) \<and>
     list_all isStdout (usageGateOutput (WalletArgsString env) (parseNode_err env)) \<and>
     list_all isStdout (fst (snd (checkFields config))) \<and>
     prefix (printSampleUsage (WalletArgsString env))
       (usageGateOutput (WalletArgsString env) (parseNode_err env)) \<and>
     set (printSampleUsage (WalletArgsString env)) \<inter> set (fst (snd (checkFields config))) = {} \<and>
     (\<not> usageGate (parseNode_err env) config \<longrightarrow>
      fst (snd (checkFields config)) \<noteq> [] \<and>
      fst (snd (checkFields config)) =
        (if Persistent_Chain config = [] then [Println ''Missing --persistent.chain''] else []) @
        (if Node_ChainID config = 0 then [Println ''Missing --rollup.chain-id''] else []) @
        (if Rollup_Machine_Filename config = []
         then [Println ''Missing --rollup.machine.filename''] else []) @
        (if Node_Type config = ''forwarder'' then
           (if Node_Forwarder_Target config = []
            then [Println ''Forwarder node needs --node.forwarder.target''] else [])
         else if Node_Type config = ''aggregator'' then
           (if Node_Aggregator_InboxAddress config = []
            then [Println ''Aggregator node needs --node.aggregator.inbox-address''] else [])
         else if Node_Type config = ''sequencer'' then []
         else [Stdout (''Unrecognized node type '' @ Node_Type config)]))"
proof (intro conjI impI)
  show "startup fuel env =
       ([CreateLaunchContext, Defer CancelFunc, ParseNode] @
        (if usageGate (parseNode_err env) config
         then usageGateOutput (WalletArgsString env) (parseNode_err env)
         else fst (snd (checkFields config))) @
        [RunDeferred CancelFunc],
        Some (Return None))"
  proof (cases "usageGate (parseNode_err env) config")
    case True
    with assms(2) startup_usageGate [of env fuel] show ?thesis
      by simp
  next
    case False
    with assms(1) have "fst (checkFields config)"
      by simp
    with False assms(2) startup_badConfig [of env fuel] show ?thesis
      by simp
  qed
next
  show "list_all isStdout (usageGateOutput (WalletArgsString env) (parseNode_err env))"
    by (rule usageGateOutput_Stdout)
next
  show "list_all isStdout (fst (snd (checkFields config)))"
    by (rule checkFields_Stdout)
next
  show "prefix (printSampleUsage (WalletArgsString env))
       (usageGateOutput (WalletArgsString env) (parseNode_err env))"
    by (rule usageGateOutput_prefix)
next
  show "set (printSampleUsage (WalletArgsString env)) \<inter> set (fst (snd (checkFields config))) = {}"
    by (simp add: checkFields_out roleOutput_def printSampleUsage_def Println_def newline_def)
next
  assume gate: "\<not> usageGate (parseNode_err env) config"
  with assms(1) have "fst (checkFields config)"
    by simp
  then show "fst (snd (checkFields config)) \<noteq> []"
    by (rule checkFields_nonempty)
  from gate have ne: "BridgeUtilsAddress config \<noteq> []" "Rollup_Address config \<noteq> []"
    unfolding usageGate_def by auto
  have "fst (snd (checkFields config)) =
      (if Persistent_Chain config = [] then [Println ''Missing --persistent.chain''] else []) @
      (if Node_ChainID config = 0 then [Println ''Missing --rollup.chain-id''] else []) @
      (if Rollup_Machine_Filename config = []
       then [Println ''Missing --rollup.machine.filename''] else []) @
      roleOutput config"
    using ne by (simp only: checkFields_out if_False append_Nil)
  then show "fst (snd (checkFields config)) =
        (if Persistent_Chain config = [] then [Println ''Missing --persistent.chain''] else []) @
        (if Node_ChainID config = 0 then [Println ''Missing --rollup.chain-id''] else []) @
        (if Rollup_Machine_Filename config = []
         then [Println ''Missing --rollup.machine.filename''] else []) @
        (if Node_Type config = ''forwarder'' then
           (if Node_Forwarder_Target config = []
            then [Println ''Forwarder node needs --node.forwarder.target''] else [])
         else if Node_Type config = ''aggregator'' then
           (if Node_Aggregator_InboxAddress config = []
            then [Println ''Aggregator node needs --node.aggregator.inbox-address''] else [])
         else if Node_Type config = ''sequencer'' then []
         else [Stdout (''Unrecognized node type '' @ Node_Type config)])"
    by (simp only: roleOutput_def)
qed

text \<open>Scenario A of the specification, a forwarder without a forwarding target: the run
  prints the message of that rule and nothing else. A sequencer without L1 URL: the run
  prints the usage text.\<close>

theorem invalid_config_starts_nothing_witness:
  "fst (checkFields (aggregatorConfig\<lparr>Node_Type := ''forwarder''\<rparr>)) \<and>
   \<not> usageGate None (aggregatorConfig\<lparr>Node_Type := ''forwarder''\<rparr>) \<and>
   startup 1 (calmEnv (aggregatorConfig\<lparr>Node_Type := ''forwarder''\<rparr>)) =
     ([CreateLaunchContext, Defer CancelFunc, ParseNode,
       Println ''Forwarder node needs --node.forwarder.target'',
       RunDeferred CancelFunc],
      Some (Return None)) \<and>
   isStdout (Println ''Forwarder node needs --node.forwarder.target'') \<and>
   Println ''Forwarder node needs --node.forwarder.target'' \<notin>
     set (printSampleUsage ''[--wallet.password=pass]'') \<and>
   usageGate None (sequencerConfig\<lparr>L1_URL := []\<rparr>) \<and>
   startup 1 (calmEnv (sequencerConfig\<lparr>L1_URL := []\<rparr>)) =
     ([CreateLaunchContext, Defer CancelFunc, ParseNode] @
      printSampleUsage ''[--wallet.password=pass]'' @ [RunDeferred CancelFunc],
      Some (Return None)) \<and>
   list_all isStdout (printSampleUsage ''[--wallet.password=pass]'')"
proof -
  let ?fw = "aggregatorConfig\<lparr>Node_Type := ''forwarder''\<rparr>"
  let ?sq = "sequencerConfig\<lparr>L1_URL := []\<rparr>"
  let ?msg = "Println ''Forwarder node needs --node.forwarder.target''"
  have bad: "fst (checkFields ?fw)"
    by code_simp
  have gate: "\<not> usageGate None ?fw"
    by code_simp
  have gate': "\<not> usageGate (parseNode_err (calmEnv ?fw)) ?fw"
    using gate by (simp add: calmEnv_def)
  have cfg: "?fw = parseNode_config (calmEnv ?fw)"
    by (simp add: calmEnv_def)
  have w: "WalletArgsString (calmEnv ?fw) = ''[--wallet.password=pass]''"
    by (simp add: calmEnv_def)
  have fields: "Persistent_Chain ?fw \<noteq> [] \<and> Node_ChainID ?fw \<noteq> 0 \<and>
      Rollup_Machine_Filename ?fw \<noteq> [] \<and> Node_Type ?fw = ''forwarder'' \<and>
      Node_Forwarder_Target ?fw = []"
    by (simp add: aggregatorConfig_def sequencerConfig_def)
  from bad have h: "usageGate (parseNode_err (calmEnv ?fw)) ?fw \<or> fst (checkFields ?fw)"
    by simp
  note fw = invalid_config_starts_nothing [OF h cfg, of 1]
  from fw [THEN conjunct2, THEN conjunct2, THEN conjunct2, THEN conjunct2, THEN conjunct2,
      THEN mp, OF gate', THEN conjunct2] fields
  have out: "fst (snd (checkFields ?fw)) = [?msg]"
    by simp
  from fw [THEN conjunct1] gate' out
  have r1: "startup 1 (calmEnv ?fw) =
     ([CreateLaunchContext, Defer CancelFunc, ParseNode, ?msg, RunDeferred CancelFunc],
      Some (Return None))"
    by simp
  from fw [THEN conjunct2, THEN conjunct2, THEN conjunct1] out have r2: "isStdout ?msg"
    by simp
  from fw [THEN conjunct2, THEN conjunct2, THEN conjunct2, THEN conjunct2, THEN conjunct1] out w
  have r3: "?msg \<notin> set (printSampleUsage ''[--wallet.password=pass]'')"
    by simp
  have sgate: "usageGate None ?sq"
    by code_simp
  have sgate': "usageGate (parseNode_err (calmEnv ?sq)) ?sq"
    using sgate by (simp add: calmEnv_def)
  have scfg: "?sq = parseNode_config (calmEnv ?sq)"
    by (simp add: calmEnv_def)
  have serr: "parseNode_err (calmEnv ?sq) = None"
    "WalletArgsString (calmEnv ?sq) = ''[--wallet.password=pass]''"
    by (simp_all add: calmEnv_def)
  from sgate' have sh: "usageGate (parseNode_err (calmEnv ?sq)) ?sq \<or> fst (checkFields ?sq)"
    by simp
  note sq = invalid_config_starts_nothing [OF sh scfg, of 1]
  from sq [THEN conjunct1] sgate' serr
  have r4: "startup 1 (calmEnv ?sq) =
     ([CreateLaunchContext, Defer CancelFunc, ParseNode] @
      printSampleUsage ''[--wallet.password=pass]'' @ [RunDeferred CancelFunc],
      Some (Return None))"
    by (simp add: usageGateOutput_def)
  from sq [THEN conjunct2, THEN conjunct1] serr
  have r5: "list_all isStdout (printSampleUsage ''[--wallet.password=pass]'')"
    by (simp add: usageGateOutput_def)
  from bad gate r1 r2 r3 sgate r4 r5 show ?thesis
    by (intro conjI)
qed

text \<open>
  Claim C6 as stated fails: a configuration without chain id violates a rule, and the run
  prints the message of that rule and no usage text.
\<close>

theorem invalid_config_usage_counterexample:
  "fst (checkFields (sequencerConfig\<lparr>Node_ChainID := 0\<rparr>)) \<and>
   startup 1 (calmEnv (sequencerConfig\<lparr>Node_ChainID := 0\<rparr>)) =
     ([CreateLaunchContext, Defer CancelFunc, ParseNode, Println ''Missing --rollup.chain-id'',
       RunDeferred CancelFunc],
      Some (Return None)) \<and>
   set (printSampleUsage ''[--wallet.password=pass]'') \<inter>
     set (fst (startup 1 (calmEnv (sequencerConfig\<lparr>Node_ChainID := 0\<rparr>)))) = {}"
  by code_simp

section \<open>The retry loops\<close>

lemma fst_prepend [simp]: "fst (prepend evs run) = evs @ fst run"
  by (cases run) (simp add: prepend_def)

lemma snd_prepend [simp]: "snd (prepend evs run) = snd run"
  by (cases run) (simp add: prepend_def)

lemma prepend_eq: "prepend evs run = (evs @ fst run, snd run)"
  by (cases run) (simp add: prepend_def)

lemma inboxReaderLoop_succeeds:
  assumes "\<forall>k<length errs. startInboxReader env (i + k) = Inl (errs ! k) \<and>
                            inboxRetrySelect env (i + k) = TimeAfter"
    and "startInboxReader env (i + length errs) = Inr reader"
    and "length errs < fuel"
  shows "inboxReaderLoop fuel env i =
     (concat (map (\<lambda>err. [StartInboxReader,
                           LogWarn ''failed to start inbox reader, waiting and retrying'' err,
                           RecvTimeAfter 5]) errs) @ [StartInboxReader],
      Some (Inr reader))"
  using assms
proof (induction errs arbitrary: i fuel)
  case Nil
  then obtain f where "fuel = Suc f" by (cases fuel) auto
  with Nil show ?case by simp
next
  case (Cons err errs)
  then obtain f where f: "fuel = Suc f" by (cases fuel) auto
  from Cons.prems(1) have here: "startInboxReader env i = Inl err" "inboxRetrySelect env i = TimeAfter"
    by force+
  have "\<forall>k<length errs. startInboxReader env (Suc i + k) = Inl (errs ! k) \<and>
                          inboxRetrySelect env (Suc i + k) = TimeAfter"
  proof (intro allI impI)
    fix k assume "k < length errs"
    then have "Suc k < length (err # errs)" by simp
    from Cons.prems(1) [rule_format, OF this] show "startInboxReader env (Suc i + k) = Inl (errs ! k) \<and>
                          inboxRetrySelect env (Suc i + k) = TimeAfter" by simp
  qed
  moreover from Cons.prems(2) have "startInboxReader env (Suc i + length errs) = Inr reader" by simp
  moreover from Cons.prems(3) f have "length errs < f" by simp
  ultimately have "inboxReaderLoop f env (Suc i) =
     (concat (map (\<lambda>err. [StartInboxReader,
                           LogWarn ''failed to start inbox reader, waiting and retrying'' err,
                           RecvTimeAfter 5]) errs) @ [StartInboxReader],
      Some (Inr reader))"
    by (rule Cons.IH)
  with here f show ?case by (simp add: prepend_def)
qed

lemma inboxReaderLoop_exit:
  "snd (inboxReaderLoop fuel env i) = Some (Inl out) \<Longrightarrow>
   out = Return (Some ''ctx cancelled StartInboxReader retry loop'') \<and>
   (\<exists>pre. fst (inboxReaderLoop fuel env i) = pre @ [RecvCtxDone])"
proof (induction fuel arbitrary: i)
  case 0
  then show ?case by simp
next
  case (Suc fuel)
  show ?case
  proof (cases "startInboxReader env i")
    case (Inr reader)
    with Suc.prems show ?thesis by simp
  next
    case (Inl err)
    show ?thesis
    proof (cases "inboxRetrySelect env i")
      case CtxDone
      with Inl Suc.prems show ?thesis by auto
    next
      case TimeAfter
      with Inl Suc.prems have "snd (inboxReaderLoop fuel env (Suc i)) = Some (Inl out)"
        by simp
      from Suc.IH [OF this] TimeAfter Inl show ?thesis
        by auto
    qed
  qed
qed

lemma inboxReaderLoop_ctx:
  "RecvCtxDone \<in> set (fst (inboxReaderLoop fuel env i)) \<Longrightarrow>
   snd (inboxReaderLoop fuel env i) =
     Some (Inl (Return (Some ''ctx cancelled StartInboxReader retry loop'')))"
  by (induction fuel arbitrary: i) (auto split: sum.splits retry_select.splits)

lemma inboxReaderLoop_events:
  "e \<in> set (fst (inboxReaderLoop fuel env i)) \<Longrightarrow>
   e = StartInboxReader \<or> e = RecvCtxDone \<or> e = RecvTimeAfter 5 \<or>
   (\<exists>err. e = LogWarn ''failed to start inbox reader, waiting and retrying'' err)"
  by (induction fuel arbitrary: i) (auto split: sum.splits retry_select.splits)

lemma batcherAttempt_events:
  "fst (batcherAttempt env config m rd i) = [SetupBatcher m] \<or>
   fst (batcherAttempt env config m rd i) = [SetupBatcher m, SetupLockout] \<and>
   Node_Sequencer_Lockout_Redis config \<noteq> [] \<and>
   (\<exists>h. setupBatcher env i m = Inr (SequencerBatcher h) \<and>
        snd (batcherAttempt env config m rd i) = Inr (setupLockout env i (SequencerBatcher h) rd))"
  by (simp add: batcherAttempt_def split: sum.splits TransactionBatcher.splits)

lemma batcherAttempt_panic:
  "snd (batcherAttempt env config m rd i) = Inl out \<Longrightarrow>
   out = PanicTypeAssertion \<and> (\<exists>h. setupBatcher env i m = Inr (OtherBatcher h)) \<and>
   Node_Sequencer_Lockout_Redis config \<noteq> []"
  by (simp add: batcherAttempt_def split: sum.splits TransactionBatcher.splits if_splits)

lemma batcherLoop_Suc:
  "batcherLoop (Suc fuel) env config m rd i =
     (case snd (batcherAttempt env config m rd i) of
        Inl panic \<Rightarrow> (fst (batcherAttempt env config m rd i), Some (Inl panic))
      | Inr (Inr batch) \<Rightarrow>
          (fst (batcherAttempt env config m rd i) @ [GoBatchStart batch], Some (Inr batch))
      | Inr (Inl err) \<Rightarrow>
          (case batcherRetrySelect env i of
             CtxDone \<Rightarrow>
               (fst (batcherAttempt env config m rd i) @
                [LogWarn ''failed to setup batcher, waiting and retrying'' err, RecvCtxDone],
                Some (Inl (Return (Some ''ctx cancelled setup batcher''))))
           | TimeAfter \<Rightarrow>
               (fst (batcherAttempt env config m rd i) @
                [LogWarn ''failed to setup batcher, waiting and retrying'' err, RecvTimeAfter 5] @
                fst (batcherLoop fuel env config m rd (Suc i)),
                snd (batcherLoop fuel env config m rd (Suc i)))))"
  by (cases "batcherAttempt env config m rd i")
    (simp add: prepend_eq split: sum.splits retry_select.splits)

declare batcherLoop.simps(2) [simp del]

lemma batcherLoop_succeeds:
  assumes "\<forall>k<length errs. snd (batcherAttempt env config m rd (i + k)) = Inr (Inl (errs ! k)) \<and>
                            batcherRetrySelect env (i + k) = TimeAfter"
    and "snd (batcherAttempt env config m rd (i + length errs)) = Inr (Inr batch)"
    and "length errs < fuel"
  shows "batcherLoop fuel env config m rd i =
     (concat (map (\<lambda>k. fst (batcherAttempt env config m rd (i + k)) @
                        [LogWarn ''failed to setup batcher, waiting and retrying'' (errs ! k),
                         RecvTimeAfter 5]) [0..<length errs]) @
      fst (batcherAttempt env config m rd (i + length errs)) @ [GoBatchStart batch],
      Some (Inr batch))"
  using assms
proof (induction errs arbitrary: i fuel)
  case Nil
  then obtain f where "fuel = Suc f" by (cases fuel) auto
  with Nil show ?case by (simp add: batcherLoop_Suc)
next
  case (Cons err errs)
  then obtain f where f: "fuel = Suc f" by (cases fuel) auto
  from Cons.prems(1) have here: "snd (batcherAttempt env config m rd i) = Inr (Inl err)"
      "batcherRetrySelect env i = TimeAfter"
    by force+
  have "\<forall>k<length errs. snd (batcherAttempt env config m rd (Suc i + k)) = Inr (Inl (errs ! k)) \<and>
                          batcherRetrySelect env (Suc i + k) = TimeAfter"
  proof (intro allI impI)
    fix k assume "k < length errs"
    then have "Suc k < length (err # errs)" by simp
    from Cons.prems(1) [rule_format, OF this]
    show "snd (batcherAttempt env config m rd (Suc i + k)) = Inr (Inl (errs ! k)) \<and>
          batcherRetrySelect env (Suc i + k) = TimeAfter" by simp
  qed
  moreover from Cons.prems(2) have "snd (batcherAttempt env config m rd (Suc i + length errs)) = Inr (Inr batch)"
    by simp
  moreover from Cons.prems(3) f have "length errs < f" by simp
  ultimately have IH: "batcherLoop f env config m rd (Suc i) =
     (concat (map (\<lambda>k. fst (batcherAttempt env config m rd (Suc i + k)) @
                        [LogWarn ''failed to setup batcher, waiting and retrying'' (errs ! k),
                         RecvTimeAfter 5]) [0..<length errs]) @
      fst (batcherAttempt env config m rd (Suc i + length errs)) @ [GoBatchStart batch],
      Some (Inr batch))"
    by (rule Cons.IH)
  have "map (\<lambda>k. fst (batcherAttempt env config m rd (i + k)) @
                        [LogWarn ''failed to setup batcher, waiting and retrying'' ((err # errs) ! k),
                         RecvTimeAfter 5]) [0..<length (err # errs)] =
        (fst (batcherAttempt env config m rd i) @
           [LogWarn ''failed to setup batcher, waiting and retrying'' err, RecvTimeAfter 5]) #
        map (\<lambda>k. fst (batcherAttempt env config m rd (Suc i + k)) @
                        [LogWarn ''failed to setup batcher, waiting and retrying'' (errs ! k),
                         RecvTimeAfter 5]) [0..<length errs]"
    by (simp add: map_upt_Suc del: upt_Suc)
  with here f IH show ?case
    by (simp add: batcherLoop_Suc del: upt_Suc)
qed

lemma batcherLoop_exit:
  "snd (batcherLoop fuel env config m rd i) = Some (Inl (Return e)) \<Longrightarrow>
   e = Some ''ctx cancelled setup batcher'' \<and>
   (\<exists>pre. fst (batcherLoop fuel env config m rd i) = pre @ [RecvCtxDone])"
proof (induction fuel arbitrary: i)
  case 0
  then show ?case by simp
next
  case (Suc fuel)
  from Suc.prems show ?case
    using batcherAttempt_panic [of env config m rd i]
    by (auto simp: batcherLoop_Suc
        split: sum.splits retry_select.splits dest!: Suc.IH)
qed

lemma batcherLoop_ctx:
  "RecvCtxDone \<in> set (fst (batcherLoop fuel env config m rd i)) \<Longrightarrow>
   snd (batcherLoop fuel env config m rd i) = Some (Inl (Return (Some ''ctx cancelled setup batcher'')))"
proof (induction fuel arbitrary: i)
  case 0
  then show ?case by simp
next
  case (Suc fuel)
  from Suc.prems show ?case
    using batcherAttempt_events [of env config m rd i]
    by (auto simp: batcherLoop_Suc
        split: sum.splits retry_select.splits dest!: Suc.IH)
qed

lemma batcherLoop_events:
  "e \<in> set (fst (batcherLoop fuel env config m rd i)) \<Longrightarrow>
   e = SetupBatcher m \<or> e = SetupLockout \<or> (\<exists>b. e = GoBatchStart b) \<or> e = RecvCtxDone \<or>
   e = RecvTimeAfter 5 \<or> (\<exists>err. e = LogWarn ''failed to setup batcher, waiting and retrying'' err)"
proof (induction fuel arbitrary: i)
  case 0
  then show ?case by simp
next
  case (Suc fuel)
  from Suc.prems show ?case
    using batcherAttempt_events [of env config m rd i]
    by (auto simp: batcherLoop_Suc
        split: sum.splits retry_select.splits dest!: Suc.IH)
qed

lemma batcherLoop_panic:
  "snd (batcherLoop fuel env config m rd i) = Some (Inl PanicTypeAssertion) \<Longrightarrow>
   Node_Sequencer_Lockout_Redis config \<noteq> [] \<and>
   (\<exists>k h. setupBatcher env k m = Inr (OtherBatcher h))"
proof (induction fuel arbitrary: i)
  case 0
  then show ?case by simp
next
  case (Suc fuel)
  from Suc.prems show ?case
    using batcherAttempt_panic [of env config m rd i]
    by (auto simp: batcherLoop_Suc
        split: sum.splits retry_select.splits dest!: Suc.IH)
qed

lemma batcherLoop_lockout:
  "SetupLockout \<in> set (fst (batcherLoop fuel env config m rd i)) \<Longrightarrow>
   Node_Sequencer_Lockout_Redis config \<noteq> []"
proof (induction fuel arbitrary: i)
  case 0
  then show ?case by simp
next
  case (Suc fuel)
  from Suc.prems show ?case
    using batcherAttempt_events [of env config m rd i]
    by (auto simp: batcherLoop_Suc
        split: sum.splits retry_select.splits dest!: Suc.IH)
qed

lemma batcherLoop_starts:
  "fst (batcherLoop fuel env config m rd i) = [] \<and> snd (batcherLoop fuel env config m rd i) = None \<or>
   (\<exists>rest. fst (batcherLoop fuel env config m rd i) = SetupBatcher m # rest)"
proof (cases fuel)
  case 0
  then show ?thesis by simp
next
  case (Suc f)
  then show ?thesis
    using batcherAttempt_events [of env config m rd i]
    by (auto simp: batcherLoop_Suc split: sum.splits retry_select.splits)
qed

lemma batcherLoop_after_lockout:
  "fst (batcherLoop fuel env config m rd i) = pre @ SetupLockout # rest \<Longrightarrow>
   (\<exists>pre'. pre = pre' @ [SetupBatcher m]) \<and>
   ((\<exists>b. rest = [GoBatchStart b]) \<or>
    (\<exists>err. rest = [LogWarn ''failed to setup batcher, waiting and retrying'' err, RecvCtxDone]) \<or>
    (\<exists>err t. rest = LogWarn ''failed to setup batcher, waiting and retrying'' err #
                     RecvTimeAfter 5 # t \<and>
             (t = [] \<and> snd (batcherLoop fuel env config m rd i) = None \<or>
              (\<exists>t'. t = SetupBatcher m # t'))))"
proof (induction fuel arbitrary: i pre)
  case 0
  then show ?case by simp
next
  case (Suc fuel)
  let ?next = "batcherLoop fuel env config m rd (Suc i)"
  note st = batcherLoop_starts [of fuel env config m rd "Suc i"]
  note ev = batcherAttempt_events [of env config m rd i]
  show ?case
  proof (cases "snd (batcherAttempt env config m rd i)")
    case (Inl out)
    with Suc.prems ev show ?thesis
      by (auto simp: batcherLoop_Suc Cons_eq_append_conv append_eq_Cons_conv)
  next
    case res: (Inr e)
    show ?thesis
    proof (cases e)
      case (Inr batch)
      with res Suc.prems ev show ?thesis
        by (auto simp: batcherLoop_Suc Cons_eq_append_conv append_eq_Cons_conv)
    next
      case (Inl err)
      show ?thesis
      proof (cases "batcherRetrySelect env i")
        case CtxDone
        with Inl res Suc.prems ev show ?thesis
          by (auto simp: batcherLoop_Suc Cons_eq_append_conv append_eq_Cons_conv)
      next
        case TimeAfter
        with Inl res have step: "batcherLoop (Suc fuel) env config m rd i =
            (fst (batcherAttempt env config m rd i) @
             [LogWarn ''failed to setup batcher, waiting and retrying'' err, RecvTimeAfter 5] @
             fst ?next, snd ?next)"
          by (simp add: batcherLoop_Suc)
        from ev show ?thesis
        proof
          assume a: "fst (batcherAttempt env config m rd i) = [SetupBatcher m]"
          with step Suc.prems obtain pre2 where
            p: "pre = [SetupBatcher m, LogWarn ''failed to setup batcher, waiting and retrying'' err,
                       RecvTimeAfter 5] @ pre2"
            and n: "fst ?next = pre2 @ SetupLockout # rest"
            by (auto simp: Cons_eq_append_conv append_eq_Cons_conv)
          from Suc.IH [OF n] p a step show ?thesis
            by auto
        next
          assume a: "fst (batcherAttempt env config m rd i) = [SetupBatcher m, SetupLockout] \<and>
             Node_Sequencer_Lockout_Redis config \<noteq> [] \<and>
             (\<exists>h. setupBatcher env i m = Inr (SequencerBatcher h) \<and>
                  snd (batcherAttempt env config m rd i) =
                    Inr (setupLockout env i (SequencerBatcher h) rd))"
          with step Suc.prems have
            "pre = [SetupBatcher m] \<and>
             rest = LogWarn ''failed to setup batcher, waiting and retrying'' err #
                    RecvTimeAfter 5 # fst ?next \<or>
             (\<exists>pre2. pre = [SetupBatcher m, SetupLockout,
                       LogWarn ''failed to setup batcher, waiting and retrying'' err,
                       RecvTimeAfter 5] @ pre2 \<and> fst ?next = pre2 @ SetupLockout # rest)"
            by (auto simp: Cons_eq_append_conv append_eq_Cons_conv)
          then show ?thesis
          proof
            assume "pre = [SetupBatcher m] \<and>
             rest = LogWarn ''failed to setup batcher, waiting and retrying'' err #
                    RecvTimeAfter 5 # fst ?next"
            with st a step show ?thesis
              by auto
          next
            assume "\<exists>pre2. pre = [SetupBatcher m, SetupLockout,
                       LogWarn ''failed to setup batcher, waiting and retrying'' err,
                       RecvTimeAfter 5] @ pre2 \<and> fst ?next = pre2 @ SetupLockout # rest"
            then obtain pre2 where p: "pre = [SetupBatcher m, SetupLockout,
                       LogWarn ''failed to setup batcher, waiting and retrying'' err,
                       RecvTimeAfter 5] @ pre2" and n: "fst ?next = pre2 @ SetupLockout # rest"
              by blast
            from Suc.IH [OF n] p a step show ?thesis
              by auto
          qed
        qed
      qed
    qed
  qed
qed

lemma batcherLoop_started:
  "snd (batcherLoop fuel env config m rd i) = Some (Inr b) \<Longrightarrow>
   GoBatchStart b \<in> set (fst (batcherLoop fuel env config m rd i))"
proof (induction fuel arbitrary: i)
  case 0
  then show ?case by simp
next
  case (Suc fuel)
  from Suc.prems show ?case
    by (auto simp: batcherLoop_Suc split: sum.splits retry_select.splits dest!: Suc.IH)
qed

lemma batcherLoop_exit_any:
  assumes "snd (batcherLoop fuel env config m rd i) = Some (Inl out)"
  shows "out = Return (Some ''ctx cancelled setup batcher'') \<and>
         (\<exists>pre. fst (batcherLoop fuel env config m rd i) = pre @ [RecvCtxDone]) \<or>
         out = PanicTypeAssertion \<and> Node_Sequencer_Lockout_Redis config \<noteq> [] \<and>
         (\<exists>k h. setupBatcher env k m = Inr (OtherBatcher h))"
proof (cases out)
  case (Return e)
  with assms batcherLoop_exit [of fuel env config m rd i e] show ?thesis
    by simp
next
  case PanicTypeAssertion
  with assms batcherLoop_panic [of fuel env config m rd i] show ?thesis
    by simp
qed

section \<open>The structure of a run\<close>

lemma isStdout_early: "isStdout e \<Longrightarrow> isEarlyEvent e"
  by (cases e) simp_all

lemma list_all_Stdout_early: "list_all isStdout out \<Longrightarrow> list_all isEarlyEvent out"
  by (induction out) (simp_all add: isStdout_early)

lemma checkFields_good_out: "\<not> fst (checkFields c) \<Longrightarrow> fst (snd (checkFields c)) = []"
  by (auto simp: checkFields_bad checkFields_out roleOutput_def)

lemma healthEvents_early: "list_all isEarlyEvent (healthEvents c)"
  by (simp add: healthEvents_def)

lemma feedEvents_early: "list_all isEarlyEvent (feedEvents c)"
  by (simp add: feedEvents_def list_all_iff)

lemma healthEvents_no_ctx: "RecvCtxDone \<notin> set (healthEvents c)"
  by (simp add: healthEvents_def)

lemma feedEvents_no_ctx: "RecvCtxDone \<notin> set (feedEvents c)"
  by (auto simp: feedEvents_def)

lemma inboxReaderLoop_early: "list_all isEarlyEvent (fst (inboxReaderLoop fuel env i))"
  unfolding list_all_iff using inboxReaderLoop_events by fastforce

lemma resolveMode_early: "list_all isEarlyEvent (fst (resolveMode env c rd))"
  by (simp add: resolveMode_def split: sum.splits option.splits)

lemma resolveMode_no_ctx: "RecvCtxDone \<notin> set (fst (resolveMode env c rd))"
  by (simp add: resolveMode_def split: sum.splits option.splits)

lemma resolveMode_outcome:
  "snd (resolveMode env c rd) = Inl out \<Longrightarrow>
   (\<exists>err. out = Return (Some (errors_Wrap err ''error running GetKeystore''))) \<or>
   (\<exists>err. out = Return (Some (errors_Wrap err ''error waiting for balance'')))"
  by (auto simp: resolveMode_def split: sum.splits option.splits if_splits)

lemma acquire_reach:
  assumes "snd (inboxReaderLoop fuel env 0) = Some (Inr rd)"
    and "\<not> isl (snd (resolveMode env c rd))" and "txdbNew env = None"
  shows "acquire fuel env c =
     prepend (fst (inboxReaderLoop fuel env 0) @ fst (resolveMode env c rd) @
              [RegisterNodeStoreMetrics, TxDBNew, Defer DBClose] @
              (if WaitToCatchUp c then [InboxWaitToCatchUp] else []))
       (runBatcher fuel env c (projr (snd (resolveMode env c rd))) rd)"
proof -
  obtain tr where l: "inboxReaderLoop fuel env 0 = (tr, Some (Inr rd))"
    using assms(1) by (cases "inboxReaderLoop fuel env 0") auto
  obtain evs m where r: "resolveMode env c rd = (evs, Inr m)"
    using assms(2) by (cases "resolveMode env c rd"; cases "snd (resolveMode env c rd)") auto
  from l r assms(3) show ?thesis
    by (simp add: acquire_def prepend_eq)
qed

lemma acquire_noreach:
  assumes "\<not> (\<exists>rd. snd (inboxReaderLoop fuel env 0) = Some (Inr rd) \<and>
              \<not> isl (snd (resolveMode env c rd)) \<and> txdbNew env = None)"
  shows "list_all isEarlyEvent (fst (acquire fuel env c)) \<and>
         snd (acquire fuel env c) \<noteq> Some PanicTypeAssertion \<and>
         (RecvCtxDone \<in> set (fst (acquire fuel env c)) \<longrightarrow>
          snd (acquire fuel env c) =
            Some (Return (Some ''ctx cancelled StartInboxReader retry loop'')))"
proof -
  obtain tr r where l: "inboxReaderLoop fuel env 0 = (tr, r)"
    by (cases "inboxReaderLoop fuel env 0") auto
  have tr: "list_all isEarlyEvent tr"
    using inboxReaderLoop_early [of fuel env 0] l by simp
  show ?thesis
  proof (cases r)
    case None
    with l tr inboxReaderLoop_ctx [of fuel env 0] show ?thesis
      by (auto simp: acquire_def)
  next
    case (Some x)
    show ?thesis
    proof (cases x)
      case (Inl out)
      with Some l inboxReaderLoop_exit [of fuel env 0 out] tr show ?thesis
        by (simp add: acquire_def)
    next
      case (Inr rd)
      with Some l inboxReaderLoop_ctx [of fuel env 0] have noctx: "RecvCtxDone \<notin> set tr"
        by auto
      obtain evs y where rm: "resolveMode env c rd = (evs, y)"
        by (cases "resolveMode env c rd") auto
      have evs: "list_all isEarlyEvent evs" "RecvCtxDone \<notin> set evs"
        using resolveMode_early [of env c rd] resolveMode_no_ctx [of env c rd] rm by simp_all
      show ?thesis
      proof (cases y)
        case (Inl out)
        with resolveMode_outcome [of env c rd out] rm have "out \<noteq> PanicTypeAssertion"
          by auto
        with Inl Inr Some l rm tr evs noctx show ?thesis
          by (simp add: acquire_def prepend_eq)
      next
        case m: (Inr m)
        with assms Inr Some l rm obtain err where "txdbNew env = Some err"
          by (cases "txdbNew env") auto
        with m Inr Some l rm tr evs noctx show ?thesis
          by (simp add: acquire_def prepend_eq)
      qed
    qed
  qed
qed

lemma launch_reach:
  assumes "parseLogFlags env = None" and "newMonitor env = None"
    and "snd (inboxReaderLoop fuel env 0) = Some (Inr rd)"
    and "\<not> isl (snd (resolveMode env c rd))" and "txdbNew env = None"
  shows "launch fuel env c =
     prepend ([ParseLogFlags] @ (if PProfEnable c then [GoPProfServer] else []) @
              [LogInfo ''Launching arbitrum node'', NewMonitor, Defer MonClose, NewMetricsConfig,
               GoStartNodeHealthCheck] @ healthEvents c @ feedEvents c @
              fst (inboxReaderLoop fuel env 0) @ fst (resolveMode env c rd) @
              [RegisterNodeStoreMetrics, TxDBNew, Defer DBClose] @
              (if WaitToCatchUp c then [InboxWaitToCatchUp] else []))
       (runBatcher fuel env c (projr (snd (resolveMode env c rd))) rd)"
  using assms(1,2) by (simp add: launch_def acquire_reach [OF assms(3-5)] prepend_eq)

lemma launch_noreach:
  assumes "\<not> (parseLogFlags env = None \<and> newMonitor env = None \<and>
              (\<exists>rd. snd (inboxReaderLoop fuel env 0) = Some (Inr rd) \<and>
                    \<not> isl (snd (resolveMode env c rd)) \<and> txdbNew env = None))"
  shows "list_all isEarlyEvent (fst (launch fuel env c)) \<and>
         snd (launch fuel env c) \<noteq> Some PanicTypeAssertion \<and>
         (RecvCtxDone \<in> set (fst (launch fuel env c)) \<longrightarrow>
          snd (launch fuel env c) =
            Some (Return (Some ''ctx cancelled StartInboxReader retry loop'')))"
proof (cases "parseLogFlags env = None \<and> newMonitor env = None")
  case True
  with assms have "\<not> (\<exists>rd. snd (inboxReaderLoop fuel env 0) = Some (Inr rd) \<and>
              \<not> isl (snd (resolveMode env c rd)) \<and> txdbNew env = None)"
    by simp
  from acquire_noreach [OF this] True show ?thesis
    by (auto simp: launch_def healthEvents_early feedEvents_early healthEvents_no_ctx
        feedEvents_no_ctx)
next
  case False
  then show ?thesis
    by (auto simp: launch_def split: option.splits)
qed

lemma readerOf_eq:
  "snd (inboxReaderLoop fuel env 0) = Some (Inr rd) \<Longrightarrow> readerOf fuel env = rd"
  by (simp add: readerOf_def)

lemma stdout_only:
  "list_all isStdout out \<Longrightarrow> list_all isEarlyEvent out \<and> RecvCtxDone \<notin> set out"
  by (induction out) (auto simp: isStdout_early)

lemma startupBody_reach:
  assumes "opensDB fuel env"
  shows "startupBody fuel env =
     prepend (setupTrace fuel env)
       (runBatcher fuel env (configOf env) (modeOf fuel env) (readerOf fuel env))"
proof -
  obtain b out c where cf: "checkFields (parseNode_config env) = (b, out, c)"
    by (cases "checkFields (parseNode_config env)") auto
  from assms cf have nb: "\<not> b" and c: "c = configOf env"
    by (simp_all add: opensDB_def configOf_def)
  from assms cf checkFields_good_out [of "parseNode_config env"] have out: "out = []"
    by (simp add: opensDB_def)
  from assms have l: "launch fuel env (configOf env) =
     prepend ([ParseLogFlags] @ (if PProfEnable (configOf env) then [GoPProfServer] else []) @
              [LogInfo ''Launching arbitrum node'', NewMonitor, Defer MonClose, NewMetricsConfig,
               GoStartNodeHealthCheck] @ healthEvents (configOf env) @ feedEvents (configOf env) @
              fst (inboxReaderLoop fuel env 0) @
              fst (resolveMode env (configOf env) (readerOf fuel env)) @
              [RegisterNodeStoreMetrics, TxDBNew, Defer DBClose] @
              (if WaitToCatchUp (configOf env) then [InboxWaitToCatchUp] else []))
       (runBatcher fuel env (configOf env)
          (projr (snd (resolveMode env (configOf env) (readerOf fuel env)))) (readerOf fuel env))"
    by (intro launch_reach) (simp_all add: opensDB_def)
  from assms have g: "\<not> usageGate (parseNode_err env) (parseNode_config env)"
    by (simp add: opensDB_def)
  show ?thesis
    unfolding startupBody_def
    by (simp only: g if_False cf prod.case nb out c l prepend_eq setupTrace_def modeOf_def
        fst_conv snd_conv append_Nil append_Cons append_assoc)
qed

lemma startupBody_noreach:
  assumes "\<not> opensDB fuel env"
  shows "list_all isEarlyEvent (fst (startupBody fuel env)) \<and>
         snd (startupBody fuel env) \<noteq> Some PanicTypeAssertion \<and>
         (RecvCtxDone \<in> set (fst (startupBody fuel env)) \<longrightarrow>
          snd (startupBody fuel env) =
            Some (Return (Some ''ctx cancelled StartInboxReader retry loop'')))"
proof (cases "usageGate (parseNode_err env) (parseNode_config env)")
  case True
  have "list_all isEarlyEvent (usageGateOutput (WalletArgsString env) (parseNode_err env))"
       "RecvCtxDone \<notin> set (usageGateOutput (WalletArgsString env) (parseNode_err env))"
    using stdout_only [OF usageGateOutput_Stdout [of "WalletArgsString env" "parseNode_err env"]]
    by simp_all
  with True show ?thesis
    by (simp add: startupBody_def)
next
  case False
  obtain b out c where cf: "checkFields (parseNode_config env) = (b, out, c)"
    by (cases "checkFields (parseNode_config env)") auto
  have c: "c = configOf env"
    using cf by (simp add: configOf_def)
  have out: "list_all isEarlyEvent out" "RecvCtxDone \<notin> set out"
    using stdout_only [OF checkFields_Stdout [of "parseNode_config env"]] cf
    by simp_all
  show ?thesis
  proof (cases b)
    case True
    with False cf out show ?thesis
      by (simp add: startupBody_def)
  next
    case nb: False
    with assms False cf c have "\<not> (parseLogFlags env = None \<and> newMonitor env = None \<and>
              (\<exists>rd. snd (inboxReaderLoop fuel env 0) = Some (Inr rd) \<and>
                    \<not> isl (snd (resolveMode env c rd)) \<and> txdbNew env = None))"
      by (auto simp: opensDB_def dest: readerOf_eq)
    from launch_noreach [OF this] False cf nb out show ?thesis
      by (simp add: startupBody_def)
  qed
qed

lemma startup_body:
  "fst (startup fuel env) =
     fst (startupBody fuel env) @
     (if snd (startupBody fuel env) = None then [] else runDeferred (fst (startupBody fuel env)))"
  "snd (startup fuel env) = snd (startupBody fuel env)"
  by (cases "startupBody fuel env"; cases "snd (startupBody fuel env)"; simp add: startup_def)+

lemma runDeferred_events: "e \<in> set (runDeferred tr) \<Longrightarrow> \<exists>d. e = RunDeferred d"
  by (auto simp: runDeferred_def)

lemma finalSelect_late: "list_all isLateEvent (fst (finalSelect a))"
  by (induction a rule: finalSelect.induct) simp_all

lemma finalSelect_cancel:
  "RecvCancelChan \<in> set (fst (finalSelect a)) \<Longrightarrow> snd (finalSelect a) = Some (Return None)"
  by (induction a rule: finalSelect.induct) simp_all

lemma finalSelect_events:
  "RecvCtxDone \<notin> set (fst (finalSelect a))" "SetupLockout \<notin> set (fst (finalSelect a))"
  "SetupBatcher m \<notin> set (fst (finalSelect a))"
  by (induction a rule: finalSelect.induct) simp_all

lemma finalSelect_outcome: "snd (finalSelect a) \<noteq> Some PanicTypeAssertion"
  by (induction a rule: finalSelect.induct) simp_all

lemma serve_late: "list_all isLateEvent (fst (serve env b))"
  using finalSelect_late [of "arrivals env"] by (simp add: serve_def split: option.splits)

lemma serve_cancel:
  "RecvCancelChan \<in> set (fst (serve env b)) \<Longrightarrow> snd (serve env b) = Some (Return None)"
  using finalSelect_cancel [of "arrivals env"] by (simp add: serve_def split: option.splits)

lemma serve_events:
  "RecvCtxDone \<notin> set (fst (serve env b))" "SetupLockout \<notin> set (fst (serve env b))"
  "SetupBatcher m \<notin> set (fst (serve env b))"
  using finalSelect_events [where a = "arrivals env"] by (simp_all add: serve_def split: option.splits)

lemma serve_outcome: "snd (serve env b) \<noteq> Some PanicTypeAssertion"
  using finalSelect_outcome [of "arrivals env"] by (simp add: serve_def split: option.splits)

lemma serve_running:
  "GoLaunchPublicServer \<in> set (fst (serve env b)) \<Longrightarrow>
   snd (serve env b) = snd (finalSelect (arrivals env))"
  by (simp add: serve_def split: option.splits)

lemma runBatcher_cases:
  "snd (batcherLoop fuel env c m rd 0) = None \<and>
     runBatcher fuel env c m rd = (fst (batcherLoop fuel env c m rd 0), None) \<or>
   (\<exists>out. snd (batcherLoop fuel env c m rd 0) = Some (Inl out) \<and>
     runBatcher fuel env c m rd = (fst (batcherLoop fuel env c m rd 0), Some out)) \<or>
   (\<exists>b. snd (batcherLoop fuel env c m rd 0) = Some (Inr b) \<and>
     runBatcher fuel env c m rd =
       (fst (batcherLoop fuel env c m rd 0) @ fst (serve env b), snd (serve env b)))"
  by (cases "batcherLoop fuel env c m rd 0")
    (auto simp: runBatcher_def prepend_eq split: option.splits sum.splits)

lemma batcherLoop_late: "list_all isLateEvent (fst (batcherLoop fuel env c m rd i))"
  unfolding list_all_iff using batcherLoop_events by fastforce

lemma batcherLoop_no_cancelChan: "RecvCancelChan \<notin> set (fst (batcherLoop fuel env c m rd i))"
  using batcherLoop_events [of RecvCancelChan fuel env c m rd i] by auto

lemma batcherLoop_no_launch:
  "GoLaunchPublicServer \<notin> set (fst (batcherLoop fuel env c m rd i))"
  using batcherLoop_events [of GoLaunchPublicServer fuel env c m rd i] by auto

lemma runBatcher_late: "list_all isLateEvent (fst (runBatcher fuel env c m rd))"
  using runBatcher_cases [of fuel env c m rd] batcherLoop_late [of fuel env c m rd 0] serve_late
  by auto

lemma runBatcher_cancel:
  "RecvCancelChan \<in> set (fst (runBatcher fuel env c m rd)) \<Longrightarrow>
   snd (runBatcher fuel env c m rd) = Some (Return None)"
  using runBatcher_cases [of fuel env c m rd] batcherLoop_no_cancelChan [of fuel env c m rd 0]
    serve_cancel
  by auto

lemma runBatcher_ctx:
  "RecvCtxDone \<in> set (fst (runBatcher fuel env c m rd)) \<Longrightarrow>
   snd (runBatcher fuel env c m rd) = Some (Return (Some ''ctx cancelled setup batcher''))"
  using runBatcher_cases [of fuel env c m rd] batcherLoop_ctx [of fuel env c m rd 0]
    serve_events(1)
  by auto

lemma runBatcher_running:
  "GoLaunchPublicServer \<in> set (fst (runBatcher fuel env c m rd)) \<Longrightarrow>
   snd (runBatcher fuel env c m rd) = snd (finalSelect (arrivals env))"
  using runBatcher_cases [of fuel env c m rd] batcherLoop_no_launch [of fuel env c m rd 0]
    serve_running
  by auto

lemma setupTrace_events:
  "e \<in> set (setupTrace fuel env) \<Longrightarrow> isEarlyEvent e \<or> e = Defer DBClose \<or> e = InboxWaitToCatchUp"
  using healthEvents_early [of "configOf env"] feedEvents_early [of "configOf env"]
    inboxReaderLoop_early [of fuel env 0]
    resolveMode_early [of env "configOf env" "readerOf fuel env"]
  by (auto simp: setupTrace_def list_all_iff)

lemma setupTrace_no_ctx:
  "opensDB fuel env \<Longrightarrow> RecvCtxDone \<notin> set (setupTrace fuel env)"
  using healthEvents_no_ctx [of "configOf env"] feedEvents_no_ctx [of "configOf env"]
    inboxReaderLoop_ctx [of fuel env 0]
    resolveMode_no_ctx [of env "configOf env" "readerOf fuel env"]
  by (auto simp: setupTrace_def opensDB_def)

section \<open>Claims about whole runs\<close>

text \<open>
  Claim C2, as amended. Cancellation reaches \<^verbatim>\<open>startup\<close> in two ways. When the final
  \<^verbatim>\<open>select\<close> receives from \<^verbatim>\<open>cancelChan\<close>, \<^verbatim>\<open>startup\<close> returns \<^verbatim>\<open>nil\<close>. When a retry
  loop's \<^verbatim>\<open>select\<close> sees \<^verbatim>\<open>ctx.Done()\<close>, \<^verbatim>\<open>startup\<close> returns the error of that loop:
  "ctx cancelled StartInboxReader retry loop" or "ctx cancelled setup batcher".
\<close>

theorem cancellation_outcomes:
  assumes "startup fuel env = (tr, r)"
  shows "(RecvCancelChan \<in> set tr \<longrightarrow> r = Some (Return None)) \<and>
         (RecvCtxDone \<in> set tr \<longrightarrow>
            r = Some (Return (Some ''ctx cancelled StartInboxReader retry loop'')) \<or>
            r = Some (Return (Some ''ctx cancelled setup batcher'')))"
proof -
  let ?b = "startupBody fuel env"
  from assms have tr: "tr = fst ?b @ (if snd ?b = None then [] else runDeferred (fst ?b))"
    and r: "r = snd ?b"
    using startup_body [of fuel env] by simp_all
  have d: "RecvCancelChan \<notin> set (runDeferred (fst ?b))" "RecvCtxDone \<notin> set (runDeferred (fst ?b))"
    using runDeferred_events by blast+
  show ?thesis
  proof (cases "opensDB fuel env")
    case False
    from startupBody_noreach [OF False] have "RecvCancelChan \<notin> set (fst ?b)"
      by (auto simp: list_all_iff)
    with startupBody_noreach [OF False] tr r d show ?thesis
      by auto
  next
    case True
    let ?rb = "runBatcher fuel env (configOf env) (modeOf fuel env) (readerOf fuel env)"
    from startupBody_reach [OF True] have b: "fst ?b = setupTrace fuel env @ fst ?rb" "snd ?b = snd ?rb"
      by simp_all
    have "RecvCancelChan \<notin> set (setupTrace fuel env)"
      using setupTrace_events [of RecvCancelChan fuel env] by auto
    with setupTrace_no_ctx [OF True]
      runBatcher_cancel [of fuel env "configOf env" "modeOf fuel env" "readerOf fuel env"]
      runBatcher_ctx [of fuel env "configOf env" "modeOf fuel env" "readerOf fuel env"] b tr r d
    show ?thesis
      by auto
  qed
qed

text \<open>A run in which the operator's signal is the first to reach the final select, and a
  run in which the context is cancelled during the first wait of the inbox-reader loop.\<close>

theorem cancellation_outcomes_witness:
  "RecvCancelChan \<in> set (fst (startup 1 (calmEnv sequencerConfig))) \<and>
   snd (startup 1 (calmEnv sequencerConfig)) = Some (Return None) \<and>
   RecvCtxDone \<in> set (fst (startup 1 cancelledEnv)) \<and>
   snd (startup 1 cancelledEnv) =
     Some (Return (Some ''ctx cancelled StartInboxReader retry loop''))"
proof -
  have a: "startup 1 (calmEnv sequencerConfig) =
      (fst (startup 1 (calmEnv sequencerConfig)), snd (startup 1 (calmEnv sequencerConfig)))"
    by simp
  have b: "startup 1 cancelledEnv = (fst (startup 1 cancelledEnv), snd (startup 1 cancelledEnv))"
    by simp
  have m: "RecvCancelChan \<in> set (fst (startup 1 (calmEnv sequencerConfig)))"
    by code_simp
  have n: "RecvCtxDone \<in> set (fst (startup 1 cancelledEnv))"
    by code_simp
  have ne: "snd (startup 1 cancelledEnv) \<noteq> Some (Return (Some ''ctx cancelled setup batcher''))"
    by code_simp
  from cancellation_outcomes [OF a] cancellation_outcomes [OF b] m n ne show ?thesis
    by simp
qed

text \<open>
  Claim C2 as stated fails: when the cancellation fires during a retry wait, \<^verbatim>\<open>startup\<close>
  returns an error.
\<close>

theorem cancellation_clean_counterexample:
  "RecvCtxDone \<in> set (fst (startup 1 cancelledEnv)) \<and>
   snd (startup 1 cancelledEnv) =
     Some (Return (Some ''ctx cancelled StartInboxReader retry loop''))"
  by code_simp

lemma count_concat:
  "\<forall>xs\<in>set xss. length (filter P xs) = 1 \<Longrightarrow> length (filter P (concat xss)) = length xss"
  by (induction xss) simp_all

lemma batcherAttempt_one_setup:
  "filter (\<lambda>e. e = SetupBatcher m) (fst (batcherAttempt env config m rd i)) = [SetupBatcher m]"
  using batcherAttempt_events [of env config m rd i] by auto

lemma batcherAttempt_value:
  "snd (batcherAttempt env config m rd j) = Inr (Inr batch) \<Longrightarrow>
   (if Node_Sequencer_Lockout_Redis config = [] then setupBatcher env j m = Inr batch
    else (\<exists>h. setupBatcher env j m = Inr (SequencerBatcher h) \<and>
              setupLockout env j (SequencerBatcher h) rd = Inr batch))"
  by (auto simp: batcherAttempt_def split: sum.splits TransactionBatcher.splits if_splits)

lemma opensDB_sequencer:
  assumes "opensDB fuel env" and "Node_Sequencer_Lockout_Redis (configOf env) \<noteq> []"
  shows "Node_Type (parseNode_config env) = ''sequencer'' \<and>
         (\<exists>a d c. modeOf fuel env = SequencerBatcherMode a (readerOf fuel env) d c)"
proof -
  have f: "Node_Type (configOf env) = Node_Type (parseNode_config env)"
    "Node_Sequencer_Lockout_Redis (configOf env) =
       Node_Sequencer_Lockout_Redis (parseNode_config env)"
    by (simp_all add: configOf_def checkFields_config)
  from assms have t: "Node_Type (parseNode_config env) = ''sequencer''"
    by (auto simp: opensDB_def usageGate_def f)
  have "Node_Type (configOf env) = ''sequencer'' \<Longrightarrow>
        \<not> isl (snd (resolveMode env (configOf env) (readerOf fuel env))) \<Longrightarrow>
        \<exists>a d c. projr (snd (resolveMode env (configOf env) (readerOf fuel env))) =
                  SequencerBatcherMode a (readerOf fuel env) d c"
    by (auto simp: resolveMode_def split: sum.splits option.splits)
  with t assms(1) show ?thesis
    by (simp add: opensDB_def f modeOf_def)
qed

lemma startup_batcher_exit:
  assumes contract: "\<forall>j a rd d c h. setupBatcher env j (SequencerBatcherMode a rd d c) \<noteq>
                                     Inr (OtherBatcher h)"
    and run: "startup fuel env = (tr, Some sout)"
    and entered: "SetupBatcher bm \<in> set tr"
    and nostart: "\<forall>b. GoBatchStart b \<notin> set tr"
  shows "sout = Return (Some ''ctx cancelled setup batcher'') \<and> RecvCtxDone \<in> set tr"
proof -
  let ?b = "startupBody fuel env"
  from run have r: "snd ?b = Some sout"
    using startup_body(2) [of fuel env] by simp
  with run have tr: "tr = fst ?b @ runDeferred (fst ?b)"
    using startup_body(1) [of fuel env] by simp
  have reach: "opensDB fuel env"
  proof (rule ccontr)
    assume "\<not> opensDB fuel env"
    from startupBody_noreach [OF this] have e: "list_all isEarlyEvent (fst ?b)"
      by simp
    from entered tr runDeferred_events [of "SetupBatcher bm" "fst ?b"]
    have "SetupBatcher bm \<in> set (fst ?b)"
      by auto
    with e show False
      by (auto simp: list_all_iff)
  qed
  let ?m = "modeOf fuel env"
  let ?rd = "readerOf fuel env"
  let ?loop = "batcherLoop fuel env (configOf env) ?m ?rd 0"
  let ?rb = "runBatcher fuel env (configOf env) ?m ?rd"
  from startupBody_reach [OF reach]
  have b: "fst ?b = setupTrace fuel env @ fst ?rb" "snd ?b = snd ?rb"
    by simp_all
  from runBatcher_cases [of fuel env "configOf env" ?m ?rd]
  consider "snd ?rb = None"
    | out where "snd ?loop = Some (Inl out)" "?rb = (fst ?loop, Some out)"
    | bt where "snd ?loop = Some (Inr bt)" "fst ?rb = fst ?loop @ fst (serve env bt)"
    by auto
  then show ?thesis
  proof cases
    case 1
    with r b show ?thesis by simp
  next
    case 2
    with r b have out: "out = sout" and l: "set (fst ?loop) \<subseteq> set tr"
      using tr by auto
    from batcherLoop_exit_any [OF 2(1)]
    consider "out = Return (Some ''ctx cancelled setup batcher'')"
        "\<exists>pre. fst ?loop = pre @ [RecvCtxDone]"
      | "Node_Sequencer_Lockout_Redis (configOf env) \<noteq> []"
        "\<exists>k h. setupBatcher env k ?m = Inr (OtherBatcher h)"
      by auto
    then show ?thesis
    proof cases
      case 1
      then have "RecvCtxDone \<in> set (fst ?loop)"
        by auto
      with 1 out l show ?thesis
        by auto
    next
      case 2
      from opensDB_sequencer [OF reach 2(1)] 2(2) contract show ?thesis
        by auto
    qed
  next
    case 3
    from batcherLoop_started [OF 3(1)] 3(2) b tr have "GoBatchStart bt \<in> set tr"
      by simp
    with nostart show ?thesis
      by simp
  qed
qed

text \<open>
  Claim C3. Retry-executor semantics, for both retry loops. If the constructor fails on
  its first \<open>N\<close> invocations (with errors \<open>errs\<close>, \<open>N = length errs\<close>), succeeds on
  the next one with the value \<open>reader\<close> (\<open>batch\<close> for the batcher loop), and each wait
  ends by the timer, then the loop is left after exactly \<open>N + 1\<close> invocations, each failure
  followed by one warning and one wait of 5 seconds, and it returns the value of invocation
  \<open>N + 1\<close>. For the batcher loop the constructor is the pass through lines 277-291
  (\<open>batcherAttempt\<close>): its value is the batcher that \<^verbatim>\<open>rpc.SetupBatcher\<close> returned in that
  pass or, with a lockout redis address, what \<^verbatim>\<open>rpc.SetupLockout\<close> returned when given
  that batcher and the inbox reader; the loop hands it to \<^verbatim>\<open>batch.Start\<close>.

  A loop that observes \<^verbatim>\<open>ctx.Done()\<close> ends with its cancellation error. The inbox-reader
  loop is left without success in no other way: the error is its cancellation error and
  the last thing it did was to observe \<^verbatim>\<open>ctx.Done()\<close> in its wait. The batcher loop is
  left without success either in that way or by the panic of the type assertion of line
  290, which needs a lockout redis address and a \<^verbatim>\<open>rpc.SetupBatcher\<close> that returned a
  batcher that is not a \<^verbatim>\<open>*batcher.SequencerBatcher\<close>. \<^verbatim>\<open>rpc.SetupBatcher\<close> is not part of
  this file; provided it never answers a \<^verbatim>\<open>SequencerBatcherMode\<close> with a batcher of
  another type, every run of \<^verbatim>\<open>startup\<close> that entered the batcher loop and was left
  without having started a batcher observed \<^verbatim>\<open>ctx.Done()\<close> and returned
  "ctx cancelled setup batcher".
\<close>

theorem retry_executor_semantics:
  "((\<forall>k<length errs. startInboxReader env (i + k) = Inl (errs ! k) \<and>
                       inboxRetrySelect env (i + k) = TimeAfter) \<and>
    startInboxReader env (i + length errs) = Inr reader \<and> length errs < fuel \<longrightarrow>
    inboxReaderLoop fuel env i =
      (concat (map (\<lambda>err. [StartInboxReader,
                            LogWarn ''failed to start inbox reader, waiting and retrying'' err,
                            RecvTimeAfter 5]) errs) @ [StartInboxReader],
       Some (Inr reader))) \<and>
   (snd (inboxReaderLoop fuel env i) = Some (Inl out) \<longrightarrow>
    out = Return (Some ''ctx cancelled StartInboxReader retry loop'') \<and>
    (\<exists>pre. fst (inboxReaderLoop fuel env i) = pre @ [RecvCtxDone])) \<and>
   ((\<forall>k<length berrs. snd (batcherAttempt env config m rd (i + k)) = Inr (Inl (berrs ! k)) \<and>
                        batcherRetrySelect env (i + k) = TimeAfter) \<and>
    snd (batcherAttempt env config m rd (i + length berrs)) = Inr (Inr batch) \<and>
    length berrs < fuel \<longrightarrow>
    batcherLoop fuel env config m rd i =
      (concat (map (\<lambda>k. fst (batcherAttempt env config m rd (i + k)) @
                         [LogWarn ''failed to setup batcher, waiting and retrying'' (berrs ! k),
                          RecvTimeAfter 5]) [0..<length berrs]) @
       fst (batcherAttempt env config m rd (i + length berrs)) @ [GoBatchStart batch],
       Some (Inr batch)) \<and>
    length (filter (\<lambda>e. e = SetupBatcher m) (fst (batcherLoop fuel env config m rd i))) =
      length berrs + 1 \<and>
    (if Node_Sequencer_Lockout_Redis config = []
     then setupBatcher env (i + length berrs) m = Inr batch
     else (\<exists>h. setupBatcher env (i + length berrs) m = Inr (SequencerBatcher h) \<and>
               setupLockout env (i + length berrs) (SequencerBatcher h) rd = Inr batch))) \<and>
   (snd (batcherLoop fuel env config m rd i) = Some (Inl bout) \<longrightarrow>
    bout = Return (Some ''ctx cancelled setup batcher'') \<and>
    (\<exists>pre. fst (batcherLoop fuel env config m rd i) = pre @ [RecvCtxDone]) \<or>
    bout = PanicTypeAssertion \<and> Node_Sequencer_Lockout_Redis config \<noteq> [] \<and>
    (\<exists>k h. setupBatcher env k m = Inr (OtherBatcher h))) \<and>
   (RecvCtxDone \<in> set (fst (inboxReaderLoop fuel env i)) \<longrightarrow>
    snd (inboxReaderLoop fuel env i) =
      Some (Inl (Return (Some ''ctx cancelled StartInboxReader retry loop'')))) \<and>
   (RecvCtxDone \<in> set (fst (batcherLoop fuel env config m rd i)) \<longrightarrow>
    snd (batcherLoop fuel env config m rd i) =
      Some (Inl (Return (Some ''ctx cancelled setup batcher'')))) \<and>
   ((\<forall>j a r d c h. setupBatcher env j (SequencerBatcherMode a r d c) \<noteq> Inr (OtherBatcher h)) \<and>
    startup fuel env = (tr, Some sout) \<and> (\<exists>bm. SetupBatcher bm \<in> set tr) \<and>
    (\<forall>b. GoBatchStart b \<notin> set tr) \<longrightarrow>
    sout = Return (Some ''ctx cancelled setup batcher'') \<and> RecvCtxDone \<in> set tr)"
proof (intro conjI impI)
  assume "(\<forall>k<length errs. startInboxReader env (i + k) = Inl (errs ! k) \<and>
                       inboxRetrySelect env (i + k) = TimeAfter) \<and>
    startInboxReader env (i + length errs) = Inr reader \<and> length errs < fuel"
  then show "inboxReaderLoop fuel env i =
      (concat (map (\<lambda>err. [StartInboxReader,
                            LogWarn ''failed to start inbox reader, waiting and retrying'' err,
                            RecvTimeAfter 5]) errs) @ [StartInboxReader],
       Some (Inr reader))"
    by (intro inboxReaderLoop_succeeds) simp_all
next
  assume "snd (inboxReaderLoop fuel env i) = Some (Inl out)"
  from inboxReaderLoop_exit [OF this]
  show "out = Return (Some ''ctx cancelled StartInboxReader retry loop'')"
    and "\<exists>pre. fst (inboxReaderLoop fuel env i) = pre @ [RecvCtxDone]"
    by simp_all
next
  assume a: "(\<forall>k<length berrs. snd (batcherAttempt env config m rd (i + k)) = Inr (Inl (berrs ! k)) \<and>
                        batcherRetrySelect env (i + k) = TimeAfter) \<and>
    snd (batcherAttempt env config m rd (i + length berrs)) = Inr (Inr batch) \<and>
    length berrs < fuel"
  then show eq: "batcherLoop fuel env config m rd i =
      (concat (map (\<lambda>k. fst (batcherAttempt env config m rd (i + k)) @
                         [LogWarn ''failed to setup batcher, waiting and retrying'' (berrs ! k),
                          RecvTimeAfter 5]) [0..<length berrs]) @
       fst (batcherAttempt env config m rd (i + length berrs)) @ [GoBatchStart batch],
       Some (Inr batch))"
    by (intro batcherLoop_succeeds) simp_all
  have "length (filter (\<lambda>e. e = SetupBatcher m)
          (concat (map (\<lambda>k. fst (batcherAttempt env config m rd (i + k)) @
                         [LogWarn ''failed to setup batcher, waiting and retrying'' (berrs ! k),
                          RecvTimeAfter 5]) [0..<length berrs]))) =
        length (map (\<lambda>k. fst (batcherAttempt env config m rd (i + k)) @
                         [LogWarn ''failed to setup batcher, waiting and retrying'' (berrs ! k),
                          RecvTimeAfter 5]) [0..<length berrs])"
    by (rule count_concat) (auto simp: batcherAttempt_one_setup)
  then show "length (filter (\<lambda>e. e = SetupBatcher m) (fst (batcherLoop fuel env config m rd i))) =
      length berrs + 1"
    by (simp add: eq batcherAttempt_one_setup)
  from a have "snd (batcherAttempt env config m rd (i + length berrs)) = Inr (Inr batch)"
    by simp
  then show "if Node_Sequencer_Lockout_Redis config = []
     then setupBatcher env (i + length berrs) m = Inr batch
     else (\<exists>h. setupBatcher env (i + length berrs) m = Inr (SequencerBatcher h) \<and>
               setupLockout env (i + length berrs) (SequencerBatcher h) rd = Inr batch)"
    by (rule batcherAttempt_value)
next
  assume "snd (batcherLoop fuel env config m rd i) = Some (Inl bout)"
  then show "bout = Return (Some ''ctx cancelled setup batcher'') \<and>
    (\<exists>pre. fst (batcherLoop fuel env config m rd i) = pre @ [RecvCtxDone]) \<or>
    bout = PanicTypeAssertion \<and> Node_Sequencer_Lockout_Redis config \<noteq> [] \<and>
    (\<exists>k h. setupBatcher env k m = Inr (OtherBatcher h))"
    by (rule batcherLoop_exit_any)
next
  assume "RecvCtxDone \<in> set (fst (inboxReaderLoop fuel env i))"
  then show "snd (inboxReaderLoop fuel env i) =
      Some (Inl (Return (Some ''ctx cancelled StartInboxReader retry loop'')))"
    by (rule inboxReaderLoop_ctx)
next
  assume "RecvCtxDone \<in> set (fst (batcherLoop fuel env config m rd i))"
  then show "snd (batcherLoop fuel env config m rd i) =
      Some (Inl (Return (Some ''ctx cancelled setup batcher'')))"
    by (rule batcherLoop_ctx)
next
  assume a: "(\<forall>j a r d c h. setupBatcher env j (SequencerBatcherMode a r d c) \<noteq>
                            Inr (OtherBatcher h)) \<and>
    startup fuel env = (tr, Some sout) \<and> (\<exists>bm. SetupBatcher bm \<in> set tr) \<and>
    (\<forall>b. GoBatchStart b \<notin> set tr)"
  then obtain bm where "SetupBatcher bm \<in> set tr"
    by auto
  with a startup_batcher_exit [of env fuel tr sout bm]
  show "sout = Return (Some ''ctx cancelled setup batcher'')" and "RecvCtxDone \<in> set tr"
    by simp_all
qed

text \<open>Scenario D of the specification (the inbox reader fails twice, then succeeds with the
  reader of its third call), the batcher loop with two failed passes, both loops
  cancelled, and a run of \<^verbatim>\<open>startup\<close> cancelled in the batcher loop.\<close>

theorem retry_executor_semantics_witness:
  "inboxReaderLoop 3 flakyEnv 0 =
     ([StartInboxReader,
       LogWarn ''failed to start inbox reader, waiting and retrying'' ''dial tcp: connection refused'',
       RecvTimeAfter 5,
       StartInboxReader,
       LogWarn ''failed to start inbox reader, waiting and retrying'' ''dial tcp: connection refused'',
       RecvTimeAfter 5,
       StartInboxReader],
      Some (Inr (InboxReader 2))) \<and>
   startInboxReader flakyEnv 2 = Inr (InboxReader 2) \<and>
   length (filter (\<lambda>e. e = SetupBatcher sequencerMode)
             (fst (batcherLoop 3 flakyEnv sequencerConfig sequencerMode (InboxReader 2) 0))) = 3 \<and>
   snd (batcherLoop 3 flakyEnv sequencerConfig sequencerMode (InboxReader 2) 0) =
     Some (Inr (OtherBatcher 102)) \<and>
   (\<exists>h. setupBatcher flakyEnv 2 sequencerMode = Inr (SequencerBatcher h) \<and>
        setupLockout flakyEnv 2 (SequencerBatcher h) (InboxReader 2) = Inr (OtherBatcher 102)) \<and>
   snd (inboxReaderLoop 3 cancelledEnv 0) =
     Some (Inl (Return (Some ''ctx cancelled StartInboxReader retry loop''))) \<and>
   (\<exists>pre. fst (inboxReaderLoop 3 cancelledEnv 0) = pre @ [RecvCtxDone]) \<and>
   snd (batcherLoop 3 cancelledEnv sequencerConfig sequencerMode (InboxReader 2) 0) =
     Some (Inl (Return (Some ''ctx cancelled setup batcher''))) \<and>
   (\<exists>pre. fst (batcherLoop 3 cancelledEnv sequencerConfig sequencerMode (InboxReader 2) 0) =
          pre @ [RecvCtxDone]) \<and>
   snd (startup 3 cancelledBatcherEnv) = Some (Return (Some ''ctx cancelled setup batcher'')) \<and>
   RecvCtxDone \<in> set (fst (startup 3 cancelledBatcherEnv))"
proof -
  let ?errs = "[''dial tcp: connection refused'', ''dial tcp: connection refused'']"
  let ?berrs = "[''no L1 connection'', ''redis unreachable'']"
  let ?rd = "InboxReader 2"
  have h1: "(\<forall>k<length ?errs. startInboxReader flakyEnv (0 + k) = Inl (?errs ! k) \<and>
                       inboxRetrySelect flakyEnv (0 + k) = TimeAfter) \<and>
    startInboxReader flakyEnv (0 + length ?errs) = Inr ?rd \<and> length ?errs < 3"
    by (simp add: flakyEnv_def calmEnv_def All_less_Suc)
  have h2: "(\<forall>k<length ?berrs.
        snd (batcherAttempt flakyEnv sequencerConfig sequencerMode ?rd (0 + k)) =
          Inr (Inl (?berrs ! k)) \<and>
        batcherRetrySelect flakyEnv (0 + k) = TimeAfter) \<and>
    snd (batcherAttempt flakyEnv sequencerConfig sequencerMode ?rd (0 + length ?berrs)) =
      Inr (Inr (OtherBatcher 102)) \<and>
    length ?berrs < 3"
    by (simp add: flakyEnv_def calmEnv_def All_less_Suc batcherAttempt_def sequencerConfig_def
        sequencerMode_def batcherFor_def)
  have n3: "RecvCtxDone \<in> set (fst (inboxReaderLoop 3 cancelledEnv 0))"
    by code_simp
  have n4: "RecvCtxDone \<in>
      set (fst (batcherLoop 3 cancelledEnv sequencerConfig sequencerMode ?rd 0))"
    by code_simp
  have redis: "Node_Sequencer_Lockout_Redis sequencerConfig \<noteq> []"
    by (simp add: sequencerConfig_def)
  have contract: "\<forall>j a r d c h.
      setupBatcher cancelledBatcherEnv j (SequencerBatcherMode a r d c) \<noteq> Inr (OtherBatcher h)"
    by (simp add: cancelledBatcherEnv_def calmEnv_def)
  have ret: "snd (startup 3 cancelledBatcherEnv) \<noteq> None"
    by code_simp
  then obtain sout where "snd (startup 3 cancelledBatcherEnv) = Some sout"
    by auto
  then have run: "startup 3 cancelledBatcherEnv = (fst (startup 3 cancelledBatcherEnv), Some sout)"
    by (simp add: prod_eq_iff)
  have entered: "list_ex (\<lambda>e. case e of SetupBatcher bm \<Rightarrow> True | _ \<Rightarrow> False)
      (fst (startup 3 cancelledBatcherEnv))"
    by code_simp
  then obtain e where e: "e \<in> set (fst (startup 3 cancelledBatcherEnv))"
    "case e of SetupBatcher bm \<Rightarrow> True | _ \<Rightarrow> False"
    unfolding list_ex_iff by blast
  have "\<exists>bm. e = SetupBatcher bm"
  proof (cases e)
  qed (use e(2) in auto)
  with e(1) have entered': "\<exists>bm. SetupBatcher bm \<in> set (fst (startup 3 cancelledBatcherEnv))"
    by auto
  have nostart: "list_all (\<lambda>e. case e of GoBatchStart b \<Rightarrow> False | _ \<Rightarrow> True)
      (fst (startup 3 cancelledBatcherEnv))"
    by code_simp
  then have nostart': "\<forall>b. GoBatchStart b \<notin> set (fst (startup 3 cancelledBatcherEnv))"
    unfolding list_all_iff by fastforce
  note flaky = retry_executor_semantics [where env = flakyEnv and i = 0 and fuel = 3
      and config = sequencerConfig and m = sequencerMode and rd = ?rd]
  note cancelled = retry_executor_semantics [where env = cancelledEnv and i = 0 and fuel = 3
      and config = sequencerConfig and m = sequencerMode and rd = ?rd]
  note batcherCancelled = retry_executor_semantics [where env = cancelledBatcherEnv and fuel = 3
      and tr = "fst (startup 3 cancelledBatcherEnv)" and sout = sout]
  note c1 = flaky [THEN conjunct1, THEN mp, OF h1]
  note c3 = flaky [THEN conjunct2, THEN conjunct2, THEN conjunct1, THEN mp, OF h2]
  note h3 = cancelled [THEN conjunct2, THEN conjunct2, THEN conjunct2, THEN conjunct2,
      THEN conjunct1, THEN mp, OF n3]
  note h4 = cancelled [THEN conjunct2, THEN conjunct2, THEN conjunct2, THEN conjunct2,
      THEN conjunct2, THEN conjunct1, THEN mp, OF n4]
  note c2 = cancelled [THEN conjunct2, THEN conjunct1, THEN mp, OF h3, THEN conjunct2]
  note c4 = cancelled [THEN conjunct2, THEN conjunct2, THEN conjunct2, THEN conjunct1,
      THEN mp, OF h4]
  note c7 = batcherCancelled [THEN conjunct2, THEN conjunct2, THEN conjunct2, THEN conjunct2,
      THEN conjunct2, THEN conjunct2, THEN mp,
      OF conjI [OF contract conjI [OF run conjI [OF entered' nostart']]]]
  from c1 have r1: "inboxReaderLoop 3 flakyEnv 0 =
     ([StartInboxReader,
       LogWarn ''failed to start inbox reader, waiting and retrying'' ''dial tcp: connection refused'',
       RecvTimeAfter 5,
       StartInboxReader,
       LogWarn ''failed to start inbox reader, waiting and retrying'' ''dial tcp: connection refused'',
       RecvTimeAfter 5,
       StartInboxReader],
      Some (Inr (InboxReader 2)))"
    by simp
  from h1 have r1': "startInboxReader flakyEnv 2 = Inr (InboxReader 2)"
    by (simp add: numeral_2_eq_2)
  from c3 [THEN conjunct2, THEN conjunct1]
  have r2: "length (filter (\<lambda>e. e = SetupBatcher sequencerMode)
             (fst (batcherLoop 3 flakyEnv sequencerConfig sequencerMode ?rd 0))) = 3"
    by simp
  from c3 [THEN conjunct1]
  have r3: "snd (batcherLoop 3 flakyEnv sequencerConfig sequencerMode ?rd 0) =
      Some (Inr (OtherBatcher 102))"
    by (simp only: snd_conv)
  from c3 [THEN conjunct2, THEN conjunct2] redis
  have r4: "\<exists>h. setupBatcher flakyEnv 2 sequencerMode = Inr (SequencerBatcher h) \<and>
        setupLockout flakyEnv 2 (SequencerBatcher h) (InboxReader 2) = Inr (OtherBatcher 102)"
    by (simp add: numeral_2_eq_2)
  from c4 have r5: "\<exists>pre. fst (batcherLoop 3 cancelledEnv sequencerConfig sequencerMode ?rd 0) =
          pre @ [RecvCtxDone]"
    by simp
  from c7 \<open>snd (startup 3 cancelledBatcherEnv) = Some sout\<close>
  have r6: "snd (startup 3 cancelledBatcherEnv) =
      Some (Return (Some ''ctx cancelled setup batcher''))"
    by simp
  from c7 have r7: "RecvCtxDone \<in> set (fst (startup 3 cancelledBatcherEnv))"
    by simp
  from r1 r1' r2 r3 r4 h3 c2 h4 r5 r6 r7 show ?thesis
    by (intro conjI)
qed

text \<open>
  Claim C5. The final \<^verbatim>\<open>select\<close> waits for three sources (the three constructors of
  \<open>signal\<close>). Once \<^verbatim>\<open>startup\<close> has launched the public server, its result is decided by
  the first signal to arrive: the received error for either error channel, \<^verbatim>\<open>nil\<close> for
  cancellation, and no result while nothing arrives. Signals that arrive later change
  nothing in the run.
\<close>

theorem first_signal_wins:
  "startup fuel (env\<lparr>arrivals := s # later\<rparr>) = startup fuel (env\<lparr>arrivals := [s]\<rparr>) \<and>
   (GoLaunchPublicServer \<in> set (fst (startup fuel env)) \<longrightarrow>
    snd (startup fuel env) =
      (case arrivals env of
         [] \<Rightarrow> None
       | TxDBErr err # later \<Rightarrow> Some (Return err)
       | ErrChanErr err # later \<Rightarrow> Some (Return err)
       | Cancel # later \<Rightarrow> Some (Return None)))"
proof
  have i: "inboxReaderLoop n (env\<lparr>arrivals := a\<rparr>) k = inboxReaderLoop n env k" for n a k
    by (induction n arbitrary: k)
      (simp_all cong: sum.case_cong retry_select.case_cong)
  have att: "batcherAttempt (env\<lparr>arrivals := a\<rparr>) c m rd k = batcherAttempt env c m rd k"
    for a c m rd k
    by (simp add: batcherAttempt_def split: sum.splits TransactionBatcher.splits)
  have b: "batcherLoop n (env\<lparr>arrivals := a\<rparr>) c m rd k = batcherLoop n env c m rd k"
    for n a c m rd k
    by (induction n arbitrary: k)
      (simp_all add: batcherLoop_Suc att
        cong: option.case_cong retry_select.case_cong sum.case_cong)
  have r: "resolveMode (env\<lparr>arrivals := a\<rparr>) c rd = resolveMode env c rd" for a c rd
    by (simp add: resolveMode_def cong: sum.case_cong option.case_cong)
  have sv: "serve (env\<lparr>arrivals := s # later\<rparr>) b = serve (env\<lparr>arrivals := [s]\<rparr>) b" for b
    by (cases s) (simp_all add: serve_def cong: option.case_cong)
  have rb: "runBatcher fuel (env\<lparr>arrivals := s # later\<rparr>) c m rd =
            runBatcher fuel (env\<lparr>arrivals := [s]\<rparr>) c m rd" for c m rd
    by (simp add: runBatcher_def b sv cong: option.case_cong prod.case_cong sum.case_cong)
  have "startupBody fuel (env\<lparr>arrivals := s # later\<rparr>) = startupBody fuel (env\<lparr>arrivals := [s]\<rparr>)"
    by (simp add: startupBody_def launch_def acquire_def i r rb
        cong: option.case_cong prod.case_cong sum.case_cong if_cong)
  then show "startup fuel (env\<lparr>arrivals := s # later\<rparr>) = startup fuel (env\<lparr>arrivals := [s]\<rparr>)"
    by (simp add: startup_def)
next
  show "GoLaunchPublicServer \<in> set (fst (startup fuel env)) \<longrightarrow>
    snd (startup fuel env) =
      (case arrivals env of
         [] \<Rightarrow> None
       | TxDBErr err # later \<Rightarrow> Some (Return err)
       | ErrChanErr err # later \<Rightarrow> Some (Return err)
       | Cancel # later \<Rightarrow> Some (Return None))"
  proof
    assume g: "GoLaunchPublicServer \<in> set (fst (startup fuel env))"
    let ?b = "startupBody fuel env"
    have f: "snd (finalSelect (arrivals env)) =
      (case arrivals env of
         [] \<Rightarrow> None
       | TxDBErr err # later \<Rightarrow> Some (Return err)
       | ErrChanErr err # later \<Rightarrow> Some (Return err)
       | Cancel # later \<Rightarrow> Some (Return None))"
      by (cases "arrivals env" rule: finalSelect.cases) simp_all
    from g runDeferred_events [of GoLaunchPublicServer "fst ?b"]
    have gb: "GoLaunchPublicServer \<in> set (fst ?b)"
      by (auto simp: startup_body split: if_splits)
    show "snd (startup fuel env) =
      (case arrivals env of
         [] \<Rightarrow> None
       | TxDBErr err # later \<Rightarrow> Some (Return err)
       | ErrChanErr err # later \<Rightarrow> Some (Return err)
       | Cancel # later \<Rightarrow> Some (Return None))"
    proof (cases "opensDB fuel env")
      case False
      from startupBody_noreach [OF False] gb show ?thesis
        by (auto simp: list_all_iff)
    next
      case True
      from setupTrace_events [of GoLaunchPublicServer fuel env]
      have "GoLaunchPublicServer \<notin> set (setupTrace fuel env)"
        by auto
      with gb startupBody_reach [OF True]
      have "GoLaunchPublicServer \<in>
          set (fst (runBatcher fuel env (configOf env) (modeOf fuel env) (readerOf fuel env)))"
        by simp
      from runBatcher_running [OF this] startupBody_reach [OF True] f show ?thesis
        by (simp add: startup_body)
    qed
  qed
qed

text \<open>Scenario E of the specification: the transaction database reports an error first,
  the cancellation comes later.\<close>

theorem first_signal_wins_witness:
  "GoLaunchPublicServer \<in>
     set (fst (startup 1 ((calmEnv sequencerConfig)\<lparr>arrivals := [TxDBErr (Some ''database closed''), Cancel]\<rparr>))) \<and>
   snd (startup 1 ((calmEnv sequencerConfig)\<lparr>arrivals := [TxDBErr (Some ''database closed''), Cancel]\<rparr>)) =
     Some (Return (Some ''database closed'')) \<and>
   startup 1 ((calmEnv sequencerConfig)\<lparr>arrivals := [TxDBErr (Some ''database closed''), Cancel]\<rparr>) =
     startup 1 ((calmEnv sequencerConfig)\<lparr>arrivals := [TxDBErr (Some ''database closed'')]\<rparr>)"
proof -
  let ?env = "(calmEnv sequencerConfig)\<lparr>arrivals := [TxDBErr (Some ''database closed''), Cancel]\<rparr>"
  have g: "GoLaunchPublicServer \<in> set (fst (startup 1 ?env))"
    by code_simp
  from first_signal_wins [where fuel = 1 and env = ?env] g
  have "snd (startup 1 ?env) =
      (case arrivals ?env of
         [] \<Rightarrow> None
       | TxDBErr err # later \<Rightarrow> Some (Return err)
       | ErrChanErr err # later \<Rightarrow> Some (Return err)
       | Cancel # later \<Rightarrow> Some (Return None))"
    by blast
  also have "\<dots> = Some (Return (Some ''database closed''))"
    by simp
  finally have r: "snd (startup 1 ?env) = Some (Return (Some ''database closed''))" .
  from first_signal_wins [where fuel = 1 and env = "calmEnv sequencerConfig"
        and s = "TxDBErr (Some ''database closed'')" and later = "[Cancel]"]
  have "startup 1 ?env =
      startup 1 ((calmEnv sequencerConfig)\<lparr>arrivals := [TxDBErr (Some ''database closed'')]\<rparr>)"
    by (rule conjunct1)
  with g r show ?thesis
    by (intro conjI)
qed

lemma deferredCalls_none: "\<forall>d. Defer d \<notin> set tr \<Longrightarrow> deferredCalls tr = []"
  by (induction tr rule: deferredCalls.induct) auto

lemma late_not_deferred: "list_all isLateEvent tr \<Longrightarrow> Defer d \<notin> set tr \<and> RunDeferred d \<notin> set tr \<and>
    InboxWaitToCatchUp \<notin> set tr"
  by (induction tr) auto

lemma early_facts: "list_all isEarlyEvent tr \<Longrightarrow>
    Defer DBClose \<notin> set tr \<and> RunDeferred d \<notin> set tr \<and> InboxWaitToCatchUp \<notin> set tr \<and>
    SetupLockout \<notin> set tr \<and> SetupBatcher m \<notin> set tr"
  by (induction tr) auto

lemma healthEvents_no_defer: "Defer d \<notin> set (healthEvents c)"
  by (simp add: healthEvents_def)

lemma feedEvents_no_defer: "Defer d \<notin> set (feedEvents c)"
  by (auto simp: feedEvents_def)

lemma inboxReaderLoop_no_defer: "Defer d \<notin> set (fst (inboxReaderLoop fuel env i))"
  using inboxReaderLoop_events [of "Defer d" fuel env i] by auto

lemma resolveMode_no_defer: "Defer d \<notin> set (fst (resolveMode env c rd))"
  by (simp add: resolveMode_def split: sum.splits option.splits)

lemma setupTrace_deferred:
  "deferredCalls (setupTrace fuel env) = [CancelFunc, LogCleanlyShuttingDown, MonClose, DBClose]"
  by (simp add: setupTrace_def deferredCalls_append deferredCalls_none healthEvents_no_defer
      feedEvents_no_defer inboxReaderLoop_no_defer resolveMode_no_defer)

lemma setupTrace_wait:
  "InboxWaitToCatchUp \<in> set (setupTrace fuel env) \<longleftrightarrow> WaitToCatchUp (configOf env)"
  using early_facts [OF healthEvents_early [of "configOf env"]]
    early_facts [OF feedEvents_early [of "configOf env"]]
    early_facts [OF inboxReaderLoop_early [of fuel env 0]]
    early_facts [OF resolveMode_early [of env "configOf env" "readerOf fuel env"]]
  by (simp add: setupTrace_def)

lemma setupTrace_opens: "Defer DBClose \<in> set (setupTrace fuel env)"
  by (simp add: setupTrace_def)

lemma configOf_fields:
  "Node_Type (configOf env) = Node_Type (parseNode_config env)"
  "Node_Sequencer_Lockout_Redis (configOf env) =
     Node_Sequencer_Lockout_Redis (parseNode_config env)"
  "WaitToCatchUp (configOf env) =
     (Node_Type (parseNode_config env) = ''sequencer'' \<or> WaitToCatchUp (parseNode_config env))"
  by (simp_all add: configOf_def checkFields_config)

text \<open>
  Claim C8, as amended. Line 139 sets \<^verbatim>\<open>config.WaitToCatchUp\<close> for the sequencer and no
  line clears it, so after the checks the flag is true exactly when the node type is
  \<^verbatim>\<open>sequencer\<close> or the flag was configured. The catch-up wait is performed exactly on
  the runs that open the transaction database with the flag true: always for a sequencer,
  and for another node type when the flag was configured.
\<close>

theorem catch_up_wait:
  "WaitToCatchUp (snd (snd (checkFields (parseNode_config env)))) =
     (Node_Type (parseNode_config env) = ''sequencer'' \<or> WaitToCatchUp (parseNode_config env)) \<and>
   (InboxWaitToCatchUp \<in> set (fst (startup fuel env)) \<longleftrightarrow>
      Defer DBClose \<in> set (fst (startup fuel env)) \<and>
      (Node_Type (parseNode_config env) = ''sequencer'' \<or> WaitToCatchUp (parseNode_config env)))"
proof
  show "WaitToCatchUp (snd (snd (checkFields (parseNode_config env)))) =
     (Node_Type (parseNode_config env) = ''sequencer'' \<or> WaitToCatchUp (parseNode_config env))"
    by (simp add: checkFields_config)
next
  let ?b = "startupBody fuel env"
  have d: "InboxWaitToCatchUp \<notin> set (runDeferred (fst ?b))" "Defer DBClose \<notin> set (runDeferred (fst ?b))"
    using runDeferred_events by blast+
  show "InboxWaitToCatchUp \<in> set (fst (startup fuel env)) \<longleftrightarrow>
      Defer DBClose \<in> set (fst (startup fuel env)) \<and>
      (Node_Type (parseNode_config env) = ''sequencer'' \<or> WaitToCatchUp (parseNode_config env))"
  proof (cases "opensDB fuel env")
    case False
    from startupBody_noreach [OF False] have "list_all isEarlyEvent (fst ?b)"
      by simp
    from early_facts [OF this] d show ?thesis
      by (simp add: startup_body)
  next
    case True
    let ?rb = "runBatcher fuel env (configOf env) (modeOf fuel env) (readerOf fuel env)"
    from startupBody_reach [OF True] have b: "fst ?b = setupTrace fuel env @ fst ?rb"
      by simp
    from late_not_deferred
      [OF runBatcher_late [of fuel env "configOf env" "modeOf fuel env" "readerOf fuel env"]]
    have "InboxWaitToCatchUp \<notin> set (fst ?rb)"
      by simp
    with d b setupTrace_wait [of fuel env] setupTrace_opens [of fuel env] show ?thesis
      by (auto simp: startup_body configOf_fields)
  qed
qed

text \<open>The sample sequencer does not configure the flag and waits.\<close>

theorem catch_up_wait_witness:
  "WaitToCatchUp sequencerConfig = False \<and>
   WaitToCatchUp (snd (snd (checkFields (parseNode_config (calmEnv sequencerConfig))))) \<and>
   InboxWaitToCatchUp \<in> set (fst (startup 1 (calmEnv sequencerConfig)))"
proof -
  have d: "Defer DBClose \<in> set (fst (startup 1 (calmEnv sequencerConfig)))"
    by code_simp
  have t: "Node_Type (parseNode_config (calmEnv sequencerConfig)) = ''sequencer''"
    by (simp add: calmEnv_def sequencerConfig_def)
  have w: "WaitToCatchUp sequencerConfig = False"
    by (simp add: sequencerConfig_def)
  from catch_up_wait [of "calmEnv sequencerConfig" 1] d t w show ?thesis
    by simp
qed

text \<open>
  Claim C8 as stated fails for the other node types: an aggregator configured with
  \<^verbatim>\<open>WaitToCatchUp\<close> passes validation, keeps the flag and performs the catch-up wait.
\<close>

theorem catch_up_wait_unset_counterexample:
  "Node_Type (aggregatorConfig\<lparr>WaitToCatchUp := True\<rparr>) = ''aggregator'' \<and>
   \<not> usageGate None (aggregatorConfig\<lparr>WaitToCatchUp := True\<rparr>) \<and>
   \<not> fst (checkFields (aggregatorConfig\<lparr>WaitToCatchUp := True\<rparr>)) \<and>
   WaitToCatchUp (snd (snd (checkFields (aggregatorConfig\<lparr>WaitToCatchUp := True\<rparr>)))) \<and>
   InboxWaitToCatchUp \<in> set (fst (startup 1 (calmEnv (aggregatorConfig\<lparr>WaitToCatchUp := True\<rparr>))))"
  by code_simp

text \<open>
  Claim C9. Whenever \<^verbatim>\<open>startup\<close> is left (by \<^verbatim>\<open>return\<close> with or without an error, or
  by the panic) after line 268 has deferred the closing of the transaction database, the
  run ends with the deferred calls in this order: close the transaction database, close
  the monitor, log "Cleanly shutting down node", and then the cancel function of line 90;
  no deferred call runs before.
\<close>

theorem deferred_release_order:
  assumes "startup fuel env = (tr, Some out)" and "Defer DBClose \<in> set tr"
  shows "\<exists>body. tr = body @ [RunDeferred DBClose, RunDeferred MonClose,
                             RunDeferred LogCleanlyShuttingDown, RunDeferred CancelFunc] \<and>
                (\<forall>d. RunDeferred d \<notin> set body)"
proof -
  let ?b = "startupBody fuel env"
  from assms(1) have "snd (startup fuel env) = Some out" and t: "fst (startup fuel env) = tr"
    by simp_all
  then have r: "snd ?b = Some out"
    by (simp add: startup_body)
  with t have tr: "tr = fst ?b @ runDeferred (fst ?b)"
    by (simp add: startup_body)
  from assms(2) tr runDeferred_events [of "Defer DBClose" "fst ?b"] have db: "Defer DBClose \<in> set (fst ?b)"
    by auto
  have reach: "opensDB fuel env"
  proof (rule ccontr)
    assume "\<not> opensDB fuel env"
    from startupBody_noreach [OF this] have "list_all isEarlyEvent (fst ?b)"
      by simp
    from early_facts [OF this] db show False
      by simp
  qed
  let ?rb = "runBatcher fuel env (configOf env) (modeOf fuel env) (readerOf fuel env)"
  from startupBody_reach [OF reach] have b: "fst ?b = setupTrace fuel env @ fst ?rb"
    by simp
  note late = late_not_deferred
    [OF runBatcher_late [of fuel env "configOf env" "modeOf fuel env" "readerOf fuel env"]]
  from late have "deferredCalls (fst ?rb) = []"
    by (intro deferredCalls_none) simp
  with b have "runDeferred (fst ?b) = [RunDeferred DBClose, RunDeferred MonClose,
                             RunDeferred LogCleanlyShuttingDown, RunDeferred CancelFunc]"
    by (simp add: runDeferred_def deferredCalls_append setupTrace_deferred)
  moreover have "\<forall>d. RunDeferred d \<notin> set (fst ?b)"
    using b late setupTrace_events by fastforce
  ultimately show ?thesis
    using tr by blast
qed

text \<open>A run ended by an error of the public server.\<close>

theorem deferred_release_order_witness:
  "snd (startup 1 ((calmEnv sequencerConfig)\<lparr>arrivals := [ErrChanErr (Some ''listen tcp: address in use'')]\<rparr>)) =
     Some (Return (Some ''listen tcp: address in use'')) \<and>
   (\<exists>body. fst (startup 1 ((calmEnv sequencerConfig)\<lparr>arrivals := [ErrChanErr (Some ''listen tcp: address in use'')]\<rparr>)) =
            body @ [RunDeferred DBClose, RunDeferred MonClose,
                    RunDeferred LogCleanlyShuttingDown, RunDeferred CancelFunc] \<and>
           (\<forall>d. RunDeferred d \<notin> set body))"
proof -
  let ?env = "(calmEnv sequencerConfig)\<lparr>arrivals := [ErrChanErr (Some ''listen tcp: address in use'')]\<rparr>"
  have r: "snd (startup 1 ?env) = Some (Return (Some ''listen tcp: address in use''))"
    by code_simp
  then have a: "startup 1 ?env = (fst (startup 1 ?env), Some (Return (Some ''listen tcp: address in use'')))"
    by (metis prod.collapse)
  have d: "Defer DBClose \<in> set (fst (startup 1 ?env))"
    by code_simp
  from deferred_release_order [OF a d] r show ?thesis
    by simp
qed

lemma runBatcher_panic:
  "snd (runBatcher fuel env c m rd) = Some PanicTypeAssertion \<Longrightarrow>
   Node_Sequencer_Lockout_Redis c \<noteq> [] \<and> (\<exists>k h. setupBatcher env k m = Inr (OtherBatcher h))"
  using runBatcher_cases [of fuel env c m rd] batcherLoop_panic [of fuel env c m rd 0]
    serve_outcome [of env]
  by auto

lemma runBatcher_lockout:
  "SetupLockout \<in> set (fst (runBatcher fuel env c m rd)) \<Longrightarrow>
   Node_Sequencer_Lockout_Redis c \<noteq> []"
  using runBatcher_cases [of fuel env c m rd] batcherLoop_lockout [of fuel env c m rd 0]
    serve_events(2) [of env]
  by auto

lemma runBatcher_setup:
  "SetupBatcher m' \<in> set (fst (runBatcher fuel env c m rd)) \<Longrightarrow> m' = m"
  using runBatcher_cases [of fuel env c m rd]
    batcherLoop_events [of "SetupBatcher m'" fuel env c m rd 0]
    serve_events(3) [where env = env and m = m']
  by auto

text \<open>
  Claim C10. In every run, the lockout branch of line 289-291 (reached when
  \<^verbatim>\<open>SetupLockout\<close> is called or the type assertion panics) is reached only when the node
  type is \<^verbatim>\<open>sequencer\<close>, and then every \<^verbatim>\<open>SetupBatcher\<close> call of the run was given a
  \<^verbatim>\<open>SequencerBatcherMode\<close>. \<^verbatim>\<open>rpc.SetupBatcher\<close> is not part of this file; provided it
  never answers a \<^verbatim>\<open>SequencerBatcherMode\<close> with a batcher of another type, the type
  assertion never panics.
\<close>

theorem lockout_only_for_sequencer:
  assumes "startup fuel env = (tr, r)"
  shows "(SetupLockout \<in> set tr \<or> r = Some PanicTypeAssertion \<longrightarrow>
            Node_Type (parseNode_config env) = ''sequencer'' \<and>
            (\<forall>m. SetupBatcher m \<in> set tr \<longrightarrow> (\<exists>a rd d c. m = SequencerBatcherMode a rd d c))) \<and>
         ((\<forall>i a rd d c h. setupBatcher env i (SequencerBatcherMode a rd d c) \<noteq>
                            Inr (OtherBatcher h)) \<longrightarrow>
            r \<noteq> Some PanicTypeAssertion)"
proof -
  let ?b = "startupBody fuel env"
  from assms have tr: "tr = fst ?b @ (if snd ?b = None then [] else runDeferred (fst ?b))"
    and r: "r = snd ?b"
    using startup_body [of fuel env] by simp_all
  have d: "SetupLockout \<notin> set (runDeferred (fst ?b))" "\<And>m. SetupBatcher m \<notin> set (runDeferred (fst ?b))"
    using runDeferred_events by blast+
  show ?thesis
  proof (cases "opensDB fuel env")
    case False
    from startupBody_noreach [OF False] have e: "list_all isEarlyEvent (fst ?b)"
      and p: "snd ?b \<noteq> Some PanicTypeAssertion"
      by simp_all
    from early_facts [OF e] p tr r d show ?thesis
      by auto
  next
    case True
    let ?rb = "runBatcher fuel env (configOf env) (modeOf fuel env) (readerOf fuel env)"
    from startupBody_reach [OF True] have b: "fst ?b = setupTrace fuel env @ fst ?rb" "snd ?b = snd ?rb"
      by simp_all
    have st: "SetupLockout \<notin> set (setupTrace fuel env)" "\<And>m. SetupBatcher m \<notin> set (setupTrace fuel env)"
      using setupTrace_events by fastforce+
    have seq: "Node_Type (parseNode_config env) = ''sequencer'' \<and>
               (\<exists>a rd d c. modeOf fuel env = SequencerBatcherMode a rd d c)"
      if "Node_Sequencer_Lockout_Redis (configOf env) \<noteq> []"
      using opensDB_sequencer [OF True that] by blast
    have modes: "\<forall>m. SetupBatcher m \<in> set tr \<longrightarrow> m = modeOf fuel env"
      using tr b st d
        runBatcher_setup [of _ fuel env "configOf env" "modeOf fuel env" "readerOf fuel env"]
      by (auto split: if_splits)
    have a: "SetupLockout \<in> set tr \<or> r = Some PanicTypeAssertion \<longrightarrow>
             Node_Sequencer_Lockout_Redis (configOf env) \<noteq> []"
      using tr r b st d
        runBatcher_lockout [of fuel env "configOf env" "modeOf fuel env" "readerOf fuel env"]
        runBatcher_panic [of fuel env "configOf env" "modeOf fuel env" "readerOf fuel env"]
      by (auto split: if_splits)
    have p: "r \<noteq> Some PanicTypeAssertion"
      if h: "\<forall>i a rd d c h. setupBatcher env i (SequencerBatcherMode a rd d c) \<noteq>
                              Inr (OtherBatcher h)"
    proof
      assume "r = Some PanicTypeAssertion"
      with r b
        runBatcher_panic [of fuel env "configOf env" "modeOf fuel env" "readerOf fuel env"]
      obtain k h' where "Node_Sequencer_Lockout_Redis (configOf env) \<noteq> []"
        and k: "setupBatcher env k (modeOf fuel env) = Inr (OtherBatcher h')"
        by auto
      from seq [OF this(1)] k h show False
        by auto
    qed
    from a seq modes p show ?thesis
      by blast
  qed
qed

text \<open>The run of \<open>flakyEnv\<close> reaches the lockout branch twice.\<close>

theorem lockout_only_for_sequencer_witness:
  "SetupLockout \<in> set (fst (startup 4 flakyEnv)) \<and>
   SetupBatcher sequencerMode \<in> set (fst (startup 4 flakyEnv)) \<and>
   Node_Type (parseNode_config flakyEnv) = ''sequencer'' \<and>
   (\<exists>a rd d c. sequencerMode = SequencerBatcherMode a rd d c) \<and>
   snd (startup 4 flakyEnv) \<noteq> Some PanicTypeAssertion"
proof -
  have a: "startup 4 flakyEnv = (fst (startup 4 flakyEnv), snd (startup 4 flakyEnv))"
    by simp
  have l: "SetupLockout \<in> set (fst (startup 4 flakyEnv))"
    by code_simp
  have b: "SetupBatcher sequencerMode \<in> set (fst (startup 4 flakyEnv))"
    by code_simp
  have h: "\<forall>i a rd d c h. setupBatcher flakyEnv i (SequencerBatcherMode a rd d c) \<noteq>
                          Inr (OtherBatcher h)"
    by (simp add: flakyEnv_def calmEnv_def batcherFor_def)
  note t = lockout_only_for_sequencer [OF a]
  from t [THEN conjunct1] l
  have "Node_Type (parseNode_config flakyEnv) = ''sequencer'' \<and>
        (\<forall>m. SetupBatcher m \<in> set (fst (startup 4 flakyEnv)) \<longrightarrow>
             (\<exists>a rd d c. m = SequencerBatcherMode a rd d c))"
    by simp
  moreover from t [THEN conjunct2] h have "snd (startup 4 flakyEnv) \<noteq> Some PanicTypeAssertion"
    by (rule mp)
  ultimately show ?thesis
    using l b by simp
qed

lemma split_prefix:
  "x \<notin> set A \<Longrightarrow> A @ B = pre @ x # rest \<Longrightarrow> \<exists>pre'. pre = A @ pre' \<and> B = pre' @ x # rest"
proof (induction A arbitrary: pre)
  case Nil
  then show ?case by simp
next
  case (Cons a A)
  then obtain p where "pre = a # p" "A @ B = p @ x # rest"
    by (cases pre) auto
  with Cons show ?case by auto
qed

lemma split_suffix:
  "x \<notin> set S \<Longrightarrow> L @ S = pre @ x # rest \<Longrightarrow> \<exists>rest'. L = pre @ x # rest' \<and> rest = rest' @ S"
proof (induction L arbitrary: pre)
  case Nil
  then show ?case by auto
next
  case (Cons l L)
  show ?case
  proof (cases pre)
    case Nil
    with Cons.prems show ?thesis by simp
  next
    case (Cons p pre')
    with Cons.prems Cons.IH [of pre'] show ?thesis by auto
  qed
qed

text \<open>
  Claim C4. In every run of \<^verbatim>\<open>startup\<close>, a call of \<^verbatim>\<open>SetupLockout\<close> that is followed by
  a warning (the wrap failed after the batcher had been built) comes directly after a call
  of \<^verbatim>\<open>SetupBatcher\<close>, and what follows the warning is either the cancellation, or the
  wait of 5 seconds and then \<^verbatim>\<open>SetupBatcher\<close> again: the next attempt starts by building
  the batcher, never by the wrap. (The one other possibility is that the run is followed no
  further than that wait.)
\<close>

theorem lockout_failure_retries_whole_construction:
  assumes "startup fuel env = (tr, r)"
    and "tr = pre @ SetupLockout # LogWarn w err # rest"
  shows "\<exists>m. (\<exists>pre'. pre = pre' @ [SetupBatcher m]) \<and>
              ((\<exists>t. rest = RecvCtxDone # t) \<or>
               (\<exists>t. rest = RecvTimeAfter 5 # t \<and>
                    (t = [] \<and> r = None \<or> (\<exists>t'. t = SetupBatcher m # t'))))"
proof -
  let ?b = "startupBody fuel env"
  from assms(1) have tr: "tr = fst ?b @ (if snd ?b = None then [] else runDeferred (fst ?b))"
    and r: "r = snd ?b"
    using startup_body [of fuel env] by simp_all
  have d: "SetupLockout \<notin> set (runDeferred (fst ?b))"
    using runDeferred_events by blast
  from assms(2) have mem: "SetupLockout \<in> set tr"
    by simp
  have reach: "opensDB fuel env"
  proof (rule ccontr)
    assume "\<not> opensDB fuel env"
    from startupBody_noreach [OF this] have "list_all isEarlyEvent (fst ?b)"
      by simp
    from early_facts [OF this] mem tr d show False
      by (auto split: if_splits)
  qed
  let ?m = "modeOf fuel env"
  let ?rd = "readerOf fuel env"
  let ?loop = "batcherLoop fuel env (configOf env) ?m ?rd 0"
  let ?rb = "runBatcher fuel env (configOf env) ?m ?rd"
  from startupBody_reach [OF reach] have b: "fst ?b = setupTrace fuel env @ fst ?rb" "snd ?b = snd ?rb"
    by simp_all
  have st: "SetupLockout \<notin> set (setupTrace fuel env)"
    using setupTrace_events by fastforce
  obtain S where S: "tr = setupTrace fuel env @ fst ?loop @ S" "SetupLockout \<notin> set S"
      "snd ?loop = None \<longrightarrow> S = [] \<and> r = None"
  proof -
    from runBatcher_cases [of fuel env "configOf env" ?m ?rd]
    consider "snd ?loop = None" "?rb = (fst ?loop, None)"
      | out where "snd ?loop = Some (Inl out)" "?rb = (fst ?loop, Some out)"
      | bt where "snd ?loop = Some (Inr bt)"
          "?rb = (fst ?loop @ fst (serve env bt), snd (serve env bt))"
      by auto
    then show ?thesis
    proof cases
      case 1
      with tr r b that [of "[]"] show ?thesis by simp
    next
      case 2
      with tr r b d that [of "runDeferred (fst ?b)"] show ?thesis by simp
    next
      case 3
      with tr r b d serve_events(2) [of env bt]
        that [of "fst (serve env bt) @ (if snd ?b = None then [] else runDeferred (fst ?b))"]
      show ?thesis by simp
    qed
  qed
  from split_prefix [OF st, of "fst ?loop @ S" pre "LogWarn w err # rest"] assms(2) S(1)
  obtain pre1 where pre1: "pre = setupTrace fuel env @ pre1"
    and l1: "fst ?loop @ S = pre1 @ SetupLockout # LogWarn w err # rest"
    by auto
  from split_suffix [OF S(2) l1]
  obtain rest1 where l2: "fst ?loop = pre1 @ SetupLockout # rest1"
    and rest1: "LogWarn w err # rest = rest1 @ S"
    by auto
  from batcherLoop_after_lockout [OF l2] obtain pre2 where pre2: "pre1 = pre2 @ [SetupBatcher ?m]"
    and shape: "(\<exists>bt. rest1 = [GoBatchStart bt]) \<or>
      (\<exists>e. rest1 = [LogWarn ''failed to setup batcher, waiting and retrying'' e, RecvCtxDone]) \<or>
      (\<exists>e t. rest1 = LogWarn ''failed to setup batcher, waiting and retrying'' e #
                     RecvTimeAfter 5 # t \<and>
             (t = [] \<and> snd ?loop = None \<or> (\<exists>t'. t = SetupBatcher ?m # t')))"
    by blast
  from pre1 pre2 have "\<exists>pre'. pre = pre' @ [SetupBatcher ?m]"
    by simp
  moreover from shape rest1 S(3)
  have "(\<exists>t. rest = RecvCtxDone # t) \<or>
        (\<exists>t. rest = RecvTimeAfter 5 # t \<and>
             (t = [] \<and> r = None \<or> (\<exists>t'. t = SetupBatcher ?m # t')))"
    by auto
  ultimately show ?thesis
    by blast
qed

text \<open>In the run of \<open>flakyEnv\<close> the first \<^verbatim>\<open>SetupLockout\<close> call is event number 35; it
  fails, and after the wait the batcher is built again.\<close>

theorem lockout_failure_retries_whole_construction_witness:
  "fst (startup 4 flakyEnv) =
     take 35 (fst (startup 4 flakyEnv)) @
     SetupLockout # LogWarn ''failed to setup batcher, waiting and retrying'' ''redis unreachable'' #
     drop 37 (fst (startup 4 flakyEnv)) \<and>
   take 2 (drop 37 (fst (startup 4 flakyEnv))) = [RecvTimeAfter 5, SetupBatcher sequencerMode] \<and>
   (\<exists>m. (\<exists>pre'. take 35 (fst (startup 4 flakyEnv)) = pre' @ [SetupBatcher m]) \<and>
        ((\<exists>t. drop 37 (fst (startup 4 flakyEnv)) = RecvCtxDone # t) \<or>
         (\<exists>t. drop 37 (fst (startup 4 flakyEnv)) = RecvTimeAfter 5 # t \<and>
              (t = [] \<and> snd (startup 4 flakyEnv) = None \<or> (\<exists>t'. t = SetupBatcher m # t')))))"
proof -
  have a: "startup 4 flakyEnv = (fst (startup 4 flakyEnv), snd (startup 4 flakyEnv))"
    by simp
  have h: "fst (startup 4 flakyEnv) =
     take 35 (fst (startup 4 flakyEnv)) @
     SetupLockout # LogWarn ''failed to setup batcher, waiting and retrying'' ''redis unreachable'' #
     drop 37 (fst (startup 4 flakyEnv))"
    by code_simp
  have n: "take 2 (drop 37 (fst (startup 4 flakyEnv))) = [RecvTimeAfter 5, SetupBatcher sequencerMode]"
    by code_simp
  from lockout_failure_retries_whole_construction [OF a h] h n show ?thesis
    by (intro conjI)
qed

end
